theory Spec2Isabelle
  imports Main
begin

section \<open>Slugs of service titles (\<^verbatim>\<open>src/config/slm.js\<close>)\<close>

text \<open>
  \<^verbatim>\<open>createSlug\<close> chains four string methods:
  \<^verbatim>\<open>s.toLowerCase().replace(/[^0-9a-zA-Z - _]+/g, '').replace(/\s+/g, '-').replace(/-+/g, '-')\<close>.
  A JavaScript string is a sequence of UTF-16 code units. The model covers the strings
  whose code units are below 256 (ASCII and Latin-1), one \<^typ>\<open>char\<close> per code unit;
  on these \<^verbatim>\<open>toLowerCase\<close> is a map over the code units.
\<close>

definition toLowerChar :: "char \<Rightarrow> char" where
  "toLowerChar c =
     (let n = (of_char c :: nat)
      in if (65 \<le> n \<and> n \<le> 90) \<or> (192 \<le> n \<and> n \<le> 222 \<and> n \<noteq> 215)
         then char_of (n + 32) else c)"

definition toLowerCase :: "string \<Rightarrow> string" where
  "toLowerCase s = map toLowerChar s"

text \<open>
  \<^verbatim>\<open>s.replace(/[C]+/g, r)\<close> for a character class \<open>C\<close>: every maximal run of
  characters of the class is replaced by \<open>r\<close>. The flag says whether the previous
  character belonged to the run being replaced.
\<close>

fun replaceRuns :: "(char \<Rightarrow> bool) \<Rightarrow> string \<Rightarrow> bool \<Rightarrow> string \<Rightarrow> string" where
  "replaceRuns C r inRun [] = []"
| "replaceRuns C r inRun (c # cs) =
     (if C c then (if inRun then replaceRuns C r True cs else r @ replaceRuns C r True cs)
      else c # replaceRuns C r False cs)"

definition replaceAllRuns :: "(char \<Rightarrow> bool) \<Rightarrow> string \<Rightarrow> string \<Rightarrow> string" where
  "replaceAllRuns C r s = replaceRuns C r False s"

text \<open>
  The class \<^verbatim>\<open>[^0-9a-zA-Z - _]\<close>. Between \<^verbatim>\<open>A-Z\<close> and \<^verbatim>\<open>_\<close> the source
  has space, hyphen, space, which a character class reads as the range from space to
  space: the class keeps digits, letters, the space and the underscore, and the hyphen
  is not one of them.
\<close>

definition slugKeeps :: "char \<Rightarrow> bool" where
  "slugKeeps c =
     (let n = (of_char c :: nat)
      in (48 \<le> n \<and> n \<le> 57) \<or> (97 \<le> n \<and> n \<le> 122) \<or> (65 \<le> n \<and> n \<le> 90)
         \<or> (32 \<le> n \<and> n \<le> 32) \<or> n = 95)"

text \<open>The class \<^verbatim>\<open>\s\<close> on code units below 256: tab, LF, VT, FF, CR, space, NBSP.\<close>

definition isWhiteSpace :: "char \<Rightarrow> bool" where
  "isWhiteSpace c = (let n = (of_char c :: nat) in (9 \<le> n \<and> n \<le> 13) \<or> n = 32 \<or> n = 160)"

definition createSlug :: "string \<Rightarrow> string" where
  "createSlug s =
     replaceAllRuns (\<lambda>c. c = CHR ''-'') ''-''
       (replaceAllRuns isWhiteSpace ''-''
         (replaceAllRuns (\<lambda>c. \<not> slugKeeps c) ''''
           (toLowerCase s)))"


section \<open>JavaScript values\<close>

text \<open>
  The values a settings object can hold for the options that the constructor tests for
  truthiness. Numbers are the integers and \<^verbatim>\<open>NaN\<close>; functions and elements,
  which are always truthy, have their own types below.
\<close>

datatype jsval = JUndefined | JNull | JBool bool | JNum int | JNaN | JStr string

fun truthy :: "jsval \<Rightarrow> bool" where
  "truthy JUndefined = False"
| "truthy JNull = False"
| "truthy (JBool b) = b"
| "truthy (JNum n) = (n \<noteq> 0)"
| "truthy JNaN = False"
| "truthy (JStr s) = (s \<noteq> [])"

fun digitsOf :: "nat \<Rightarrow> string" where
  "digitsOf n =
     (if n < 10 then [char_of (48 + n)] else digitsOf (n div 10) @ [char_of (48 + n mod 10)])"

text \<open>The string a value is converted to where a string is expected (a class token,
  a property key, a template literal).\<close>

fun toStr :: "jsval \<Rightarrow> string" where
  "toStr JUndefined = ''undefined''"
| "toStr JNull = ''null''"
| "toStr (JBool b) = (if b then ''true'' else ''false'')"
| "toStr (JNum n) = (if n < 0 then CHR ''-'' # digitsOf (nat (- n)) else digitsOf (nat n))"
| "toStr JNaN = ''NaN''"
| "toStr (JStr s) = s"

datatype error = SyntaxError | InvalidCharacterError | TypeError | Thrown string

section \<open>The document\<close>

text \<open>
  An element is known by its reference. The store \<open>elems\<close> gives every reference its
  tag name, attributes, class tokens and form validity (what \<^verbatim>\<open>checkValidity()\<close>
  answers); \<open>tree\<close> lists the elements attached to the document in document order,
  each with its depth, so that the descendants of an element are the entries after it
  that lie deeper.
\<close>

type_synonym ref = nat

record elem =
  tagName :: string
  attrs :: "string \<rightharpoonup> string"
  classList :: "string list"
  validity :: bool

datatype listenTarget = Body | Node ref

text \<open>
  The three closures the Toggle class hands to \<^verbatim>\<open>addEventListener\<close>: the delegated
  handler on the body, which filters the event target by the instance's selector; the
  direct handler on the \<^verbatim>\<open>element\<close> option; the one-shot undo handler, which holds
  the trigger and the target of the toggle it undoes.
\<close>

datatype handler = Delegated string | Direct | Undo ref ref

record listener =
  l_on :: listenTarget
  l_type :: string
  l_handler :: handler

text \<open>
  \<^verbatim>\<open>window['TogglesCallback']\<close> is an array used as a dictionary: its
  \<^verbatim>\<open>length\<close> and the keys of its other own properties, among them the keys that
  are array indices.
\<close>

record jsArray =
  arr_length :: int
  arr_keys :: "string list"

text \<open>
  \<open>registry\<close> is \<^verbatim>\<open>window['TogglesCallback']\<close>, or absent. \<open>history\<close> holds what
  \<^verbatim>\<open>location.hash\<close> reads for each session history entry, newest first.
  \<open>activeElement\<close> is the element that has the focus. \<open>defaultPrevented\<close> is the
  flag of the event being dispatched. \<open>engine\<close> is the browser's selector engine for
  the selectors that the model does not read itself (see the selectors below): what
  \<^verbatim>\<open>querySelectorAll\<close> answers for a selector, from the document or from an
  element, on the given elements, tree, focused element and history. It is a parameter
  of the model.
\<close>

record world =
  elems :: "ref \<Rightarrow> elem"
  tree :: "(ref \<times> nat) list"
  engine :: "string \<Rightarrow> ref option \<Rightarrow> (ref \<Rightarrow> elem) \<Rightarrow> (ref \<times> nat) list \<Rightarrow> ref option
               \<Rightarrow> string list \<Rightarrow> error + ref list"
  registry :: "jsArray option"
  listeners :: "listener list"
  history :: "string list"
  activeElement :: "ref option"
  defaultPrevented :: bool

definition getAttribute :: "ref \<Rightarrow> string \<Rightarrow> world \<Rightarrow> string option" where
  "getAttribute r a w = attrs (elems w r) a"

definition hasAttribute :: "ref \<Rightarrow> string \<Rightarrow> world \<Rightarrow> bool" where
  "hasAttribute r a w = (attrs (elems w r) a \<noteq> None)"

definition setAttribute :: "ref \<Rightarrow> string \<Rightarrow> string \<Rightarrow> world \<Rightarrow> world" where
  "setAttribute r a v w =
     w\<lparr>elems := (elems w)(r := (elems w r)\<lparr>attrs := (attrs (elems w r))(a \<mapsto> v)\<rparr>)\<rparr>"

definition removeAttribute :: "ref \<Rightarrow> string \<Rightarrow> world \<Rightarrow> world" where
  "removeAttribute r a w =
     w\<lparr>elems := (elems w)(r := (elems w r)\<lparr>attrs := (attrs (elems w r))(a := None)\<rparr>)\<rparr>"

definition classList_contains :: "ref \<Rightarrow> string \<Rightarrow> world \<Rightarrow> bool" where
  "classList_contains r k w = (k \<in> set (classList (elems w r)))"

text \<open>
  \<^verbatim>\<open>classList.toggle(token)\<close> throws a SyntaxError for the empty token and an
  InvalidCharacterError for a token with ASCII whitespace; otherwise it removes the
  token when the list has it and appends it when not.
\<close>

definition isAsciiWhitespace :: "char \<Rightarrow> bool" where
  "isAsciiWhitespace c = (c \<in> set [CHR 0x09, CHR 0x0A, CHR 0x0C, CHR 0x0D, CHR '' ''])"

definition toggleToken :: "string \<Rightarrow> string list \<Rightarrow> string list" where
  "toggleToken k cs = (if k \<in> set cs then removeAll k cs else cs @ [k])"

definition classList_toggle :: "ref \<Rightarrow> string \<Rightarrow> world \<Rightarrow> error + world" where
  "classList_toggle r k w =
     (if k = [] then Inl SyntaxError
      else if list_ex isAsciiWhitespace k then Inl InvalidCharacterError
      else Inr (w\<lparr>elems := (elems w)(r := (elems w r)\<lparr>classList := toggleToken k (classList (elems w r))\<rparr>)\<rparr>))"

text \<open>
  \<^verbatim>\<open>element.parentNode\<close>, when it is an element: the nearest entry before the
  element that lies less deep. The root of the tree and an element that is not attached
  have none.
\<close>

definition parentNode :: "ref \<Rightarrow> world \<Rightarrow> ref option" where
  "parentNode r w =
     (case dropWhile (\<lambda>p. fst p \<noteq> r) (rev (tree w)) of
        [] \<Rightarrow> None
      | p # ps \<Rightarrow> (case dropWhile (\<lambda>q. snd p \<le> snd q) ps of [] \<Rightarrow> None | q # _ \<Rightarrow> Some (fst q)))"

subsection \<open>Selectors\<close>

text \<open>
  The selectors the Toggle class builds are an id selector (\<^verbatim>\<open>#panel\<close>, from
  \<^verbatim>\<open>aria-controls\<close> or a fragment \<^verbatim>\<open>href\<close>), an attribute selector with a quoted
  value (\<^verbatim>\<open>[href="#panel"]\<close>) and a comma-separated list of tag names and attribute
  tests (the focusable elements). The model reads these forms itself, for the HTML
  elements of a document in no-quirks mode: a list, separated by commas outside double
  quotes, of \<^verbatim>\<open>#id\<close>, \<^verbatim>\<open>tag\<close>, \<^verbatim>\<open>[attr]\<close> and \<^verbatim>\<open>[attr="value"]\<close>, with ASCII
  identifiers, attribute names in small letters, a value without double quote, backslash,
  NUL or line break (the characters that end or escape inside a quoted string), and for
  \<^verbatim>\<open>[attr="value"]\<close> an attribute whose value selectors compare exactly. The
  \<^verbatim>\<open>class\<close> attribute is held as the class list of the element, so a test on it is
  not among these forms. Every other string, valid selector or not, is handed to the
  browser's engine, the parameter \<open>engine\<close> of the document.
\<close>

datatype simple = ById string | ByTag string | HasAttr string | AttrEq string string

definition isDigit :: "char \<Rightarrow> bool" where
  "isDigit c = (let n = (of_char c :: nat) in 48 \<le> n \<and> n \<le> 57)"

definition isAsciiUpper :: "char \<Rightarrow> bool" where
  "isAsciiUpper c = (let n = (of_char c :: nat) in 65 \<le> n \<and> n \<le> 90)"

definition isAsciiLower :: "char \<Rightarrow> bool" where
  "isAsciiLower c = (let n = (of_char c :: nat) in 97 \<le> n \<and> n \<le> 122)"

definition isIdentChar :: "char \<Rightarrow> bool" where
  "isIdentChar c =
     (let n = (of_char c :: nat)
      in (48 \<le> n \<and> n \<le> 57) \<or> (97 \<le> n \<and> n \<le> 122) \<or> (65 \<le> n \<and> n \<le> 90)
         \<or> c = CHR ''-'' \<or> c = CHR ''_'')"

fun isIdent :: "string \<Rightarrow> bool" where
  "isIdent [] = False"
| "isIdent [c] = (isIdentChar c \<and> \<not> isDigit c \<and> c \<noteq> CHR ''-'')"
| "isIdent (c # d # cs) =
     (list_all isIdentChar (c # d # cs) \<and> \<not> isDigit c \<and> \<not> (c = CHR ''-'' \<and> isDigit d))"

definition isAttrName :: "string \<Rightarrow> bool" where
  "isAttrName s = (isIdent s \<and> \<not> list_ex isAsciiUpper s)"

text \<open>Attributes of the selectors \<^verbatim>\<open>[attr="value"]\<close> that the model reads; the HTML
  standard lists the attributes whose values selectors compare without regard to case,
  and these are not among them.\<close>

definition exactAttributes :: "string list" where
  "exactAttributes = [''href'', ''aria-controls'', ''tabindex'']"

definition isPlain :: "char \<Rightarrow> bool" where
  "isPlain c = (c \<notin> set [CHR 0x22, CHR 0x5C, CHR 0x00, CHR 0x0A, CHR 0x0C, CHR 0x0D])"

fun parseSimple :: "string \<Rightarrow> simple option" where
  "parseSimple [] = None"
| "parseSimple (c # r) =
     (if c = CHR ''#'' then (if isIdent r then Some (ById r) else None)
      else if c = CHR ''['' then
        (let name = takeWhile isIdentChar r; rest = dropWhile isIdentChar r
         in if \<not> isAttrName name \<or> name = ''class'' then None
            else if rest = '']'' then Some (HasAttr name)
            else (case rest of
                    e # q # v \<Rightarrow>
                      if e = CHR ''='' \<and> q = CHR 0x22 \<and> name \<in> set exactAttributes
                         \<and> dropWhile isPlain v = [CHR 0x22, CHR '']'']
                      then Some (AttrEq name (takeWhile isPlain v)) else None
                  | _ \<Rightarrow> None))
      else if isIdent (c # r) then Some (ByTag (c # r)) else None)"

text \<open>The pieces of a selector list: the text between the commas that stand outside
  double quotes. The flag says whether a double quote is open, the second argument is
  the piece read so far.\<close>

fun splitTop :: "bool \<Rightarrow> string \<Rightarrow> string \<Rightarrow> string list" where
  "splitTop inQuote piece [] = [piece]"
| "splitTop inQuote piece (c # cs) =
     (if c = CHR 0x22 then splitTop (\<not> inQuote) (piece @ [c]) cs
      else if c = CHR '','' \<and> \<not> inQuote then piece # splitTop False [] cs
      else splitTop inQuote (piece @ [c]) cs)"

definition trim :: "string \<Rightarrow> string" where
  "trim s = rev (dropWhile isAsciiWhitespace (rev (dropWhile isAsciiWhitespace s)))"

definition parseSelector :: "string \<Rightarrow> simple list option" where
  "parseSelector s = those (map (\<lambda>p. parseSimple (trim p)) (splitTop False [] s))"

fun matchesSimple :: "simple \<Rightarrow> elem \<Rightarrow> bool" where
  "matchesSimple (ById i) e = (attrs e ''id'' = Some i)"
| "matchesSimple (ByTag t) e = (toLowerCase (tagName e) = toLowerCase t)"
| "matchesSimple (HasAttr a) e = (attrs e a \<noteq> None)"
| "matchesSimple (AttrEq a v) e = (attrs e a = Some v)"

definition selects :: "simple list \<Rightarrow> world \<Rightarrow> ref \<Rightarrow> bool" where
  "selects g w r = list_ex (\<lambda>x. matchesSimple x (elems w r)) g"

text \<open>\<^verbatim>\<open>document.querySelectorAll\<close> and \<^verbatim>\<open>document.querySelector\<close>.\<close>

definition querySelectorAll :: "string \<Rightarrow> world \<Rightarrow> error + ref list" where
  "querySelectorAll s w =
     (case parseSelector s of
        None \<Rightarrow> engine w s None (elems w) (tree w) (activeElement w) (history w)
      | Some g \<Rightarrow> Inr (filter (selects g w) (map fst (tree w))))"

definition querySelector :: "string \<Rightarrow> world \<Rightarrow> error + ref option" where
  "querySelector s w =
     (case querySelectorAll s w of
        Inl e \<Rightarrow> Inl e
      | Inr rs \<Rightarrow> Inr (case rs of [] \<Rightarrow> None | r # _ \<Rightarrow> Some r))"

text \<open>\<^verbatim>\<open>element.querySelectorAll\<close>: the same over the descendants of the element.\<close>

definition descendants :: "ref \<Rightarrow> world \<Rightarrow> ref list" where
  "descendants r w =
     (case dropWhile (\<lambda>p. fst p \<noteq> r) (tree w) of
        [] \<Rightarrow> []
      | p # ps \<Rightarrow> map fst (takeWhile (\<lambda>q. snd p < snd q) ps))"

definition elementQuerySelectorAll :: "ref \<Rightarrow> string \<Rightarrow> world \<Rightarrow> error + ref list" where
  "elementQuerySelectorAll r s w =
     (case parseSelector s of
        None \<Rightarrow> engine w s (Some r) (elems w) (tree w) (activeElement w) (history w)
      | Some g \<Rightarrow> Inr (filter (selects g w) (descendants r w)))"

section \<open>The Toggle class (\<^verbatim>\<open>src/js/default.js\<close>)\<close>

text \<open>
  The settings of an instance. The three callbacks are function values: a setting holds
  a reference to one or nothing (\<^verbatim>\<open>false\<close>), and a table \<open>H\<close>, a parameter of every
  method that may call one, gives each reference its function. A callback receives the
  instance and can read and write it and the document, so it is a function on the pair
  of both; it returns whether its result is truthy, or throws.
\<close>

record settings =
  selector :: jsval
  namespace :: jsval
  inactiveClass :: jsval
  activeClass :: jsval
  before :: "nat option"
  after :: "nat option"
  valid :: "nat option"
  focusable :: jsval
  jump :: jsval

record event =
  ev_target :: ref
  ev_type :: string
  ev_cancelable :: bool

text \<open>
  The instance: its settings and the fields \<^verbatim>\<open>this.element\<close>, \<^verbatim>\<open>this.target\<close>,
  \<^verbatim>\<open>this.others\<close>, \<^verbatim>\<open>this.focusable\<close> and \<^verbatim>\<open>this.event\<close>. \<open>None\<close> is
  \<^verbatim>\<open>false\<close> or a field not yet assigned; the two lists are empty until assigned.
\<close>

record toggle =
  settings :: settings
  element :: "ref option"
  target :: "ref option"
  others :: "ref list"
  this_focusable :: "ref list"
  event :: "event option"

type_synonym hook = "toggle \<times> world \<Rightarrow> error + bool \<times> toggle \<times> world"

text \<open>The settings object \<^verbatim>\<open>s\<close> passed to the constructor. An option that is absent
  reads as \<^verbatim>\<open>undefined\<close>; \<^verbatim>\<open>focusable\<close> and \<^verbatim>\<open>jump\<close> are tested with
  \<^verbatim>\<open>hasOwnProperty\<close>, so for them absence is \<open>None\<close>.\<close>

record options =
  o_selector :: jsval
  o_namespace :: jsval
  o_inactiveClass :: jsval
  o_activeClass :: jsval
  o_before :: "nat option"
  o_after :: "nat option"
  o_valid :: "nat option"
  o_focusable :: "jsval option"
  o_jump :: "jsval option"
  o_element :: "ref option"

definition no_options :: options where
  "no_options =
     \<lparr>o_selector = JUndefined, o_namespace = JUndefined, o_inactiveClass = JUndefined,
      o_activeClass = JUndefined, o_before = None, o_after = None, o_valid = None,
      o_focusable = None, o_jump = None, o_element = None\<rparr>"

subsection \<open>Static properties\<close>

definition Toggle_selector :: string where
  \<open>Toggle_selector = ''[data-js*="toggle"]''\<close>

definition Toggle_namespace :: string where
  "Toggle_namespace = ''toggle''"

definition Toggle_inactiveClass :: string where
  "Toggle_inactiveClass = ''hidden''"

definition Toggle_activeClass :: string where
  "Toggle_activeClass = ''active''"

definition Toggle_elAriaRoles :: "string list" where
  "Toggle_elAriaRoles = [''aria-pressed'', ''aria-expanded'']"

definition Toggle_targetAriaRoles :: "string list" where
  "Toggle_targetAriaRoles = [''aria-hidden'']"

definition Toggle_elFocusable :: "string list" where
  "Toggle_elFocusable =
     [''a'', ''button'', ''input'', ''select'', ''textarea'', ''object'', ''embed'', ''form'',
      ''fieldset'', ''legend'', ''label'', ''area'', ''audio'', ''video'', ''iframe'', ''svg'',
      ''details'', ''table'', ''[tabindex]'', ''[contenteditable]'', ''[usemap]'']"

definition Toggle_events :: "string list" where
  "Toggle_events = [''click'', ''change'']"

fun join :: "string \<Rightarrow> string list \<Rightarrow> string" where
  "join sep [] = []"
| "join sep [x] = x"
| "join sep (x # y # ys) = x @ sep @ join sep (y # ys)"

subsection \<open>The constructor\<close>

text \<open>
  The registry array. A key is an array index when it is the decimal numeral, without
  leading zero, of a number below \<open>2^32 - 1\<close>. \<^verbatim>\<open>hasOwnProperty\<close> holds for
  \<^verbatim>\<open>length\<close> and for the keys assigned so far. The assignment
  \<^verbatim>\<open>array[key] = true\<close> adds the key, with three exceptions: for the key
  \<^verbatim>\<open>__proto__\<close> it calls the setter inherited from \<^verbatim>\<open>Object.prototype\<close>, which
  ignores a value that is neither an object nor \<^verbatim>\<open>null\<close>, so no property is created;
  for the key \<^verbatim>\<open>length\<close> it sets the length to the number of \<^verbatim>\<open>true\<close>, which is
  1, and the array drops its elements from index 1 on; for an array index it also raises
  the length above the index.
\<close>

definition arrayIndex :: "string \<Rightarrow> int option" where
  "arrayIndex k =
     (if k \<noteq> [] \<and> list_all isDigit k \<and> (length k = 1 \<or> hd k \<noteq> CHR ''0'')
      then (let n = foldl (\<lambda>a c. 10 * a + (of_char c - 48)) 0 k
            in if n < 4294967295 then Some n else None)
      else None)"

definition hasOwnProperty :: "jsArray \<Rightarrow> string \<Rightarrow> bool" where
  "hasOwnProperty a k = (k = ''length'' \<or> k \<in> set (arr_keys a))"

definition assignTrue :: "string \<Rightarrow> jsArray \<Rightarrow> jsArray" where
  "assignTrue k a =
     (if k = ''__proto__'' then a
      else if k = ''length'' then
        \<lparr>arr_length = 1,
         arr_keys = filter (\<lambda>k'. case arrayIndex k' of Some i \<Rightarrow> i < 1 | None \<Rightarrow> True) (arr_keys a)\<rparr>
      else (case arrayIndex k of
              Some i \<Rightarrow> \<lparr>arr_length = max (arr_length a) (i + 1),
                         arr_keys = (if k \<in> set (arr_keys a) then arr_keys a else arr_keys a @ [k])\<rparr>
            | None \<Rightarrow> a\<lparr>arr_keys := (if k \<in> set (arr_keys a) then arr_keys a else arr_keys a @ [k])\<rparr>))"

definition addEventListener :: "listenTarget \<Rightarrow> string \<Rightarrow> handler \<Rightarrow> world \<Rightarrow> world" where
  "addEventListener tg ty h w =
     w\<lparr>listeners := listeners w @ [\<lparr>l_on = tg, l_type = ty, l_handler = h\<rparr>]\<rparr>"

definition Toggle_constructor :: "options option \<Rightarrow> world \<Rightarrow> toggle \<times> world" where
  "Toggle_constructor so w =
     (let w1 = (if registry w = None then w\<lparr>registry := Some \<lparr>arr_length = 0, arr_keys = []\<rparr>\<rparr> else w);
          s = (case so of None \<Rightarrow> no_options | Some s \<Rightarrow> s);
          st = \<lparr>selector = (if truthy (o_selector s) then o_selector s else JStr Toggle_selector),
                namespace = (if truthy (o_namespace s) then o_namespace s else JStr Toggle_namespace),
                inactiveClass = (if truthy (o_inactiveClass s) then o_inactiveClass s
                                 else JStr Toggle_inactiveClass),
                activeClass = (if truthy (o_activeClass s) then o_activeClass s
                               else JStr Toggle_activeClass),
                before = o_before s,
                after = o_after s,
                valid = o_valid s,
                focusable = (case o_focusable s of Some v \<Rightarrow> v | None \<Rightarrow> JBool True),
                jump = (case o_jump s of Some v \<Rightarrow> v | None \<Rightarrow> JBool True)\<rparr>;
          this = \<lparr>settings = st, element = o_element s, target = None, others = [],
                  this_focusable = [], event = None\<rparr>;
          callbacks = (case registry w1 of None \<Rightarrow> \<lparr>arr_length = 0, arr_keys = []\<rparr> | Some a \<Rightarrow> a);
          w2 = (case element this of
                  Some e \<Rightarrow> addEventListener (Node e) ''click'' Direct w1
                | None \<Rightarrow>
                    if \<not> hasOwnProperty callbacks (toStr (selector st))
                    then fold (\<lambda>tggleEvent. addEventListener Body tggleEvent
                                 (Delegated (toStr (selector st)))) Toggle_events w1
                    else w1)
      in (this, w2\<lparr>registry := Some (assignTrue (toStr (selector st)) callbacks)\<rparr>))"

subsection \<open>Methods\<close>

definition bindE :: "error + 'a \<Rightarrow> ('a \<Rightarrow> error + 'b) \<Rightarrow> error + 'b" where
  "bindE m f = (case m of Inl e \<Rightarrow> Inl e | Inr x \<Rightarrow> f x)"

definition isActive :: "ref \<Rightarrow> toggle \<times> world \<Rightarrow> bool" where
  "isActive el tw =
     (if truthy (activeClass (settings (fst tw)))
      then classList_contains el (toStr (activeClass (settings (fst tw)))) (snd tw)
      else False)"

definition getTarget :: "ref \<Rightarrow> world \<Rightarrow> error + ref option" where
  "getTarget el w =
     bindE (case getAttribute el ''href'' w of
              Some h \<Rightarrow> querySelector h w
            | None \<Rightarrow> Inr None)
       (\<lambda>target.
          case getAttribute el ''aria-controls'' w of
            Some c \<Rightarrow> querySelector (''#'' @ c) w
          | None \<Rightarrow> Inr target)"

definition getOthers :: "ref \<Rightarrow> world \<Rightarrow> error + ref list" where
  \<open>getOthers el w =
     (case getAttribute el ''href'' w of
        Some h \<Rightarrow> querySelectorAll (''[href="'' @ h @ ''"]'') w
      | None \<Rightarrow>
          (case getAttribute el ''aria-controls'' w of
             Some c \<Rightarrow> querySelectorAll (''[aria-controls="'' @ c @ ''"]'') w
           | None \<Rightarrow> Inr []))\<close>

definition toggleFocusableOne :: "ref \<Rightarrow> world \<Rightarrow> world" where
  "toggleFocusableOne r w =
     (if getAttribute r ''tabindex'' w = Some ''-1'' then
        (case getAttribute r (''data-'' @ Toggle_namespace @ ''-tabindex'') w of
           Some dataDefault \<Rightarrow>
             if dataDefault \<noteq> [] then setAttribute r ''tabindex'' dataDefault w
             else removeAttribute r ''tabindex'' w
         | None \<Rightarrow> removeAttribute r ''tabindex'' w)
      else setAttribute r ''tabindex'' ''-1'' w)"

definition toggleFocusable :: "ref list \<Rightarrow> toggle \<times> world \<Rightarrow> toggle \<times> world" where
  "toggleFocusable elements tw = (fst tw, fold toggleFocusableOne elements (snd tw))"

text \<open>
  \<^verbatim>\<open>history.pushState('', '', pathname + search)\<close> adds an entry without a fragment;
  assigning \<^verbatim>\<open>location.hash\<close> adds an entry when the fragment changes.
\<close>

definition pushState :: "world \<Rightarrow> world" where
  "pushState w = w\<lparr>history := [] # history w\<rparr>"

definition setLocationHash :: "string \<Rightarrow> world \<Rightarrow> world" where
  "setLocationHash v w =
     (let h = (if v = [] \<or> v = ''#'' then [] else if hd v = CHR ''#'' then v else CHR ''#'' # v)
      in if history w \<noteq> [] \<and> hd (history w) = h then w else w\<lparr>history := h # history w\<rparr>)"

text \<open>\<^verbatim>\<open>target.focus({preventScroll: true})\<close>, on a target that has just received a
  tabindex; whether the target is rendered is not part of the model.\<close>

definition focus :: "ref \<Rightarrow> world \<Rightarrow> world" where
  "focus r w = w\<lparr>activeElement := Some r\<rparr>"

definition jumpTo :: "ref \<Rightarrow> ref \<Rightarrow> toggle \<times> world \<Rightarrow> toggle \<times> world" where
  "jumpTo el tg tw =
     (let w1 = pushState (snd tw)
      in if classList_contains tg (toStr (activeClass (settings (fst tw)))) w1
         then (fst tw,
               focus tg (setAttribute tg ''tabindex'' ''0''
                 (setLocationHash (case getAttribute el ''href'' w1 of Some h \<Rightarrow> h | None \<Rightarrow> ''null'') w1)))
         else (fst tw, removeAttribute tg ''tabindex'' w1))"

text \<open>
  \<^verbatim>\<open>elementToggle\<close>, block by block. A block that only changes the document takes
  the pair of instance and document and returns the document.
\<close>

fun forEach :: "('a \<Rightarrow> world \<Rightarrow> error + world) \<Rightarrow> 'a list \<Rightarrow> world \<Rightarrow> error + world" where
  "forEach f [] w = Inr w"
| "forEach f (x # xs) w = bindE (f x w) (forEach f xs)"

text \<open>Toggle Element and Target classes (lines 311 to 323). The inactive class is
  toggled on the argument \<^verbatim>\<open>target\<close>, the active class on \<^verbatim>\<open>this.target\<close>.\<close>

definition toggleClasses :: "ref \<Rightarrow> toggle \<times> world \<Rightarrow> error + world" where
  "toggleClasses tg tw =
     (let this = fst tw; w = snd tw
      in bindE
           (if truthy (activeClass (settings this)) then
              (case element this of
                 None \<Rightarrow> Inl TypeError
               | Some e \<Rightarrow>
                   bindE (classList_toggle e (toStr (activeClass (settings this))) w)
                     (\<lambda>w1. case target this of
                        None \<Rightarrow> Inl TypeError
                      | Some g \<Rightarrow>
                          bindE (classList_toggle g (toStr (activeClass (settings this))) w1)
                            (forEach
                               (\<lambda>other w'. if other \<noteq> e
                                  then classList_toggle other (toStr (activeClass (settings this))) w'
                                  else Inr w')
                               (others this))))
            else Inr w)
           (\<lambda>w3. if truthy (inactiveClass (settings this))
                 then classList_toggle tg (toStr (inactiveClass (settings this))) w3
                 else Inr w3))"

text \<open>Target Element Aria Attributes (lines 329 to 335).\<close>

definition toggleTargetAria :: "toggle \<times> world \<Rightarrow> error + world" where
  "toggleTargetAria tw =
     forEach
       (\<lambda>attr w. case target (fst tw) of
          None \<Rightarrow> Inl TypeError
        | Some g \<Rightarrow>
            (case getAttribute g attr w of
               Some v \<Rightarrow>
                 if v \<noteq> [] then Inr (setAttribute g attr (if v = ''true'' then ''false'' else ''true'') w)
                 else Inr w
             | None \<Rightarrow> Inr w))
       Toggle_targetAriaRoles (snd tw)"

text \<open>Toggle Element (including multi toggles) Aria Attributes (lines 355 to 367). The
  others receive the value computed from the trigger's attribute, not from their own.\<close>

definition toggleElementAria :: "toggle \<times> world \<Rightarrow> error + world" where
  "toggleElementAria tw =
     forEach
       (\<lambda>attr w. case element (fst tw) of
          None \<Rightarrow> Inl TypeError
        | Some e \<Rightarrow>
            (let v = getAttribute e attr w;
                 flipped = (if v = Some ''true'' then ''false'' else ''true'');
                 w1 = (case v of
                         Some s \<Rightarrow> if s \<noteq> [] then setAttribute e attr flipped w else w
                       | None \<Rightarrow> w)
             in Inr (fold
                       (\<lambda>other w'.
                          if other \<noteq> e \<and> (case getAttribute other attr w' of
                                              Some s \<Rightarrow> s \<noteq> [] | None \<Rightarrow> False)
                          then setAttribute other attr flipped w' else w')
                       (others (fst tw)) w1)))
       Toggle_elAriaRoles (snd tw)"

definition callHook :: "(nat \<Rightarrow> hook) \<Rightarrow> nat option \<Rightarrow> toggle \<times> world \<Rightarrow> error + bool \<times> toggle \<times> world" where
  "callHook H h tw = (case h of None \<Rightarrow> Inr (True, tw) | Some f \<Rightarrow> H f tw)"

text \<open>The blocks between the two hooks (lines 307 to 367), in their order: the classes,
  the target's ARIA attributes, the focusable children, the jump, the trigger's ARIA
  attributes.\<close>

definition toggleBlocks :: "ref \<Rightarrow> toggle \<times> world \<Rightarrow> error + toggle \<times> world" where
  "toggleBlocks tg tw3 =
     bindE (toggleClasses tg tw3) (\<lambda>w4.
     bindE (toggleTargetAria (fst tw3, w4)) (\<lambda>w5.
     bindE (if truthy (focusable (settings (fst tw3)))
            then Inr (toggleFocusable (this_focusable (fst tw3)) (fst tw3, w5))
            else Inr (fst tw3, w5)) (\<lambda>tw6.
     bindE (if truthy (jump (settings (fst tw6))) then
              (case element (fst tw6) of
                 None \<Rightarrow> Inl TypeError
               | Some e \<Rightarrow>
                   if hasAttribute e ''href'' (snd tw6) then
                     (case target (fst tw6) of
                        None \<Rightarrow> Inl TypeError
                      | Some g \<Rightarrow> Inr (jumpTo e g tw6))
                   else Inr tw6)
            else Inr tw6) (\<lambda>tw7.
     bindE (toggleElementAria tw7) (\<lambda>w8.
       Inr (fst tw7, w8))))))"

text \<open>
  \<^verbatim>\<open>elementToggle\<close>: store the elements in the instance; the \<^verbatim>\<open>valid\<close> guard, which
  ends the call when its result is falsy; the \<^verbatim>\<open>before\<close> hook; the blocks; the
  \<^verbatim>\<open>after\<close> hook.
\<close>

definition elementToggle ::
  "(nat \<Rightarrow> hook) \<Rightarrow> ref \<Rightarrow> ref \<Rightarrow> ref list \<Rightarrow> toggle \<times> world \<Rightarrow> error + toggle \<times> world" where
  "elementToggle H el tg foc tw =
     bindE (getOthers el (snd tw)) (\<lambda>os.
       let this = (fst tw)\<lparr>element := Some el, target := Some tg, others := os,
                           this_focusable := foc\<rparr>
       in bindE (callHook H (valid (settings this)) (this, snd tw)) (\<lambda>(ok, tw2).
            if \<not> ok then Inr tw2
            else bindE (callHook H (before (settings (fst tw2))) tw2) (\<lambda>(_, tw3).
                 bindE (toggleBlocks tg tw3) (\<lambda>tw8.
                 bindE (callHook H (after (settings (fst tw8))) tw8) (\<lambda>(_, tw9).
                   Inr tw9)))))"

text \<open>
  \<^verbatim>\<open>element.dataset[name]\<close>: a name in which a hyphen stands before a small letter
  names no attribute, and the result is \<^verbatim>\<open>undefined\<close>; otherwise it is the attribute
  \<^verbatim>\<open>data-\<close> followed by the name with every capital ASCII letter replaced by a hyphen
  and its small letter.
\<close>

fun hyphenBeforeLower :: "string \<Rightarrow> bool" where
  "hyphenBeforeLower (c # d # cs) = ((c = CHR ''-'' \<and> isAsciiLower d) \<or> hyphenBeforeLower (d # cs))"
| "hyphenBeforeLower cs = False"

definition datasetAttribute :: "string \<Rightarrow> string" where
  "datasetAttribute name =
     ''data-'' @ concat (map (\<lambda>c. if isAsciiUpper c then [CHR ''-'', toLowerChar c] else [c]) name)"

definition dataset :: "ref \<Rightarrow> string \<Rightarrow> world \<Rightarrow> string option" where
  "dataset r name w =
     (if hyphenBeforeLower name then None else getAttribute r (datasetAttribute name) w)"

text \<open>\<^verbatim>\<open>event.preventDefault()\<close> sets the flag of a cancelable event only.\<close>

definition preventDefault :: "event \<Rightarrow> world \<Rightarrow> world" where
  "preventDefault ev w = (if ev_cancelable ev then w\<lparr>defaultPrevented := True\<rparr> else w)"

definition toggle :: "(nat \<Rightarrow> hook) \<Rightarrow> event \<Rightarrow> toggle \<times> world \<Rightarrow> error + toggle \<times> world" where
  "toggle H ev tw =
     (let el = ev_target ev; w0 = preventDefault ev (snd tw)
      in bindE (getTarget el w0) (\<lambda>tgt.
           bindE (case tgt of
                    Some g \<Rightarrow> elementQuerySelectorAll g (join '', '' Toggle_elFocusable) w0
                  | None \<Rightarrow> Inr []) (\<lambda>foc.
             case tgt of
               None \<Rightarrow> Inr (fst tw, w0)
             | Some g \<Rightarrow>
                 bindE (elementToggle H el g foc (fst tw, w0)) (\<lambda>tw1.
                   case dataset el (toStr (namespace (settings (fst tw1))) @ ''Undo'') (snd tw1) of
                     None \<Rightarrow> Inr tw1
                   | Some u \<Rightarrow>
                       if u = [] then Inr tw1
                       else bindE (querySelector u (snd tw1)) (\<lambda>undo.
                              case undo of
                                None \<Rightarrow> Inl TypeError
                              | Some r \<Rightarrow>
                                  Inr (fst tw1, addEventListener (Node r) ''click'' (Undo el g) (snd tw1)))))))"

definition click :: "(nat \<Rightarrow> hook) \<Rightarrow> event \<Rightarrow> toggle \<times> world \<Rightarrow> error + toggle \<times> world" where
  "click H ev tw = toggle H ev tw"

definition change :: "(nat \<Rightarrow> hook) \<Rightarrow> event \<Rightarrow> toggle \<times> world \<Rightarrow> error + toggle \<times> world" where
  "change H ev tw =
     (let valid = validity (elems (snd tw) (ev_target ev))
      in if valid \<and> \<not> isActive (ev_target ev) tw then toggle H ev tw
         else if \<not> valid \<and> isActive (ev_target ev) tw then toggle H ev tw
         else Inr tw)"

subsection \<open>The accordion\<close>

text \<open>
  \<^verbatim>\<open>accordion()\<close> of the main class (lines 794 to 801) constructs a Toggle with a
  selector of its own and an \<^verbatim>\<open>after\<close> hook, which toggles the class
  \<^verbatim>\<open>is-expanded\<close> on the parent of the trigger and returns nothing. \<open>h\<close> is the
  place of the hook in the table of callbacks.
\<close>

definition accordion_selector :: string where
  \<open>accordion_selector = ''[data-js*="accordion"]''\<close>

definition accordion_after :: hook where
  "accordion_after tw =
     (case element (fst tw) of
        None \<Rightarrow> Inl TypeError
      | Some e \<Rightarrow>
          (case parentNode e (snd tw) of
             None \<Rightarrow> Inl TypeError
           | Some p \<Rightarrow> bindE (classList_toggle p ''is-expanded'' (snd tw))
                         (\<lambda>w'. Inr (False, fst tw, w'))))"

definition accordion :: "nat \<Rightarrow> world \<Rightarrow> toggle \<times> world" where
  "accordion h w =
     Toggle_constructor
       (Some (no_options\<lparr>o_selector := JStr accordion_selector, o_after := Some h\<rparr>)) w"

section \<open>The Icons class (\<^verbatim>\<open>src/js/default.js\<close>)\<close>

text \<open>
  The constructor starts \<^verbatim>\<open>fetch(path).then(...).catch(...).then(...)\<close>. A promise
  settles as fulfilled with a value or rejected with a reason; \<open>thenP\<close> and \<open>catchP\<close>
  give the promise that \<^verbatim>\<open>.then(f)\<close> and \<^verbatim>\<open>.catch(f)\<close> return, the callback
  running on the page. The network is a parameter: what \<^verbatim>\<open>fetch\<close> settles to for a
  path. A response has its \<^verbatim>\<open>ok\<close> flag and what the promise of \<^verbatim>\<open>text()\<close> settles to.
\<close>

datatype 'a settled = Fulfilled 'a | Rejected error

record response =
  ok :: bool
  text_body :: "string settled"

datatype logged = DirResponse response | DirError error

record sprite =
  sp_tagName :: string
  sp_innerHTML :: string
  sp_attrs :: "(string \<times> string) list"

record page =
  console :: "logged list"
  bodyChildren :: "sprite list"

definition thenP :: "'a settled \<times> page \<Rightarrow> ('a \<Rightarrow> page \<Rightarrow> 'b settled \<times> page) \<Rightarrow> 'b settled \<times> page" where
  "thenP p f = (case fst p of Fulfilled v \<Rightarrow> f v (snd p) | Rejected e \<Rightarrow> (Rejected e, snd p))"

definition catchP :: "'a settled \<times> page \<Rightarrow> (error \<Rightarrow> page \<Rightarrow> 'a settled \<times> page) \<Rightarrow> 'a settled \<times> page" where
  "catchP p f = (case fst p of Fulfilled v \<Rightarrow> (Fulfilled v, snd p) | Rejected e \<Rightarrow> f e (snd p))"

definition Icons_path :: string where
  "Icons_path = ''svg/icons.svg''"

text \<open>
  The value handed on by the first two callbacks is the text, or \<^verbatim>\<open>undefined\<close>
  (\<open>None\<close>) when the callback ends without a \<^verbatim>\<open>return\<close>. Assigning
  \<^verbatim>\<open>undefined\<close> to \<^verbatim>\<open>innerHTML\<close> writes the string \<^verbatim>\<open>undefined\<close>.
\<close>

definition Icons_constructor :: "jsval \<Rightarrow> (string \<Rightarrow> response settled) \<Rightarrow> page \<Rightarrow> page" where
  "Icons_constructor path fetch pg =
     (let path = (if truthy path then path else JStr Icons_path)
      in snd
        (thenP
          (catchP
            (thenP (fetch (toStr path), pg)
              (\<lambda>response pg.
                 if ok response
                 then (case text_body response of
                         Fulfilled t \<Rightarrow> (Fulfilled (Some t), pg)
                       | Rejected e \<Rightarrow> (Rejected e, pg))
                 else (Fulfilled None, pg\<lparr>console := console pg @ [DirResponse response]\<rparr>)))
            (\<lambda>error pg. (Fulfilled None, pg\<lparr>console := console pg @ [DirError error]\<rparr>)))
          (\<lambda>data pg.
             (let sprite = \<lparr>sp_tagName = ''DIV'', sp_innerHTML = '''', sp_attrs = []\<rparr>;
                  sprite = sprite\<lparr>sp_innerHTML := (case data of Some t \<Rightarrow> t | None \<Rightarrow> ''undefined'')\<rparr>;
                  sprite = sprite\<lparr>sp_attrs := sp_attrs sprite @ [(''aria-hidden'', ''true'')]\<rparr>;
                  sprite = sprite\<lparr>sp_attrs := sp_attrs sprite @ [(''style'', ''display: none;'')]\<rparr>
              in (Fulfilled (), pg\<lparr>bodyChildren := bodyChildren pg @ [sprite]\<rparr>)))))"



section \<open>Notions used in the properties\<close>

text \<open>The characters a slug is made of: digits, small letters, underscore, hyphen.\<close>

definition slugChar :: "char \<Rightarrow> bool" where
  "slugChar c =
     (let n = (of_char c :: nat)
      in (48 \<le> n \<and> n \<le> 57) \<or> (97 \<le> n \<and> n \<le> 122) \<or> n = 95 \<or> c = CHR ''-'')"

text \<open>
  The target resolution rule as the specification words it: the element referenced by
  \<^verbatim>\<open>href\<close>, else the element referenced by \<^verbatim>\<open>aria-controls\<close>, else none.
\<close>

definition getTarget_spec :: "ref \<Rightarrow> world \<Rightarrow> error + ref option" where
  "getTarget_spec el w =
     (let byControls = (case getAttribute el ''aria-controls'' w of
                          Some c \<Rightarrow> querySelector (''#'' @ c) w
                        | None \<Rightarrow> Inr None)
      in case getAttribute el ''href'' w of
           Some h \<Rightarrow>
             (case querySelector h w of
                Inl e \<Rightarrow> Inl e
              | Inr (Some r) \<Rightarrow> Inr (Some r)
              | Inr None \<Rightarrow> byControls)
         | None \<Rightarrow> byControls)"

text \<open>A fetch that failed: the promise was rejected (a network failure), or it was
  fulfilled with a response that is not OK.\<close>

definition fetchFailed :: "response settled \<Rightarrow> bool" where
  "fetchFailed r = (case r of Rejected e \<Rightarrow> True | Fulfilled response \<Rightarrow> \<not> ok response)"

text \<open>
  A sequence of constructions, each on the page the one before left; the number of
  delegated listeners on the body for an event type and a selector; and the test the
  constructor makes on the registry, \<^verbatim>\<open>window[Toggle.callback].hasOwnProperty(selector)\<close>,
  the array being the empty one when the window has none yet. An ordinary key is one
  that the array treats like an object would: not \<^verbatim>\<open>__proto__\<close> and not an array
  index.
\<close>

definition constructAll :: "options option list \<Rightarrow> world \<Rightarrow> world" where
  "constructAll ss w = fold (\<lambda>s w'. snd (Toggle_constructor s w')) ss w"

definition delegated :: "string \<Rightarrow> string \<Rightarrow> world \<Rightarrow> nat" where
  "delegated ty sel w =
     length (filter (\<lambda>l. l_on l = Body \<and> l_type l = ty \<and> l_handler l = Delegated sel) (listeners w))"

definition registered :: "string \<Rightarrow> world \<Rightarrow> bool" where
  "registered sel w =
     hasOwnProperty (case registry w of None \<Rightarrow> \<lparr>arr_length = 0, arr_keys = []\<rparr> | Some a \<Rightarrow> a) sel"

definition ordinaryKey :: "string \<Rightarrow> bool" where
  "ordinaryKey k = (k \<noteq> ''__proto__'' \<and> arrayIndex k = None)"

definition once_inv :: "world \<Rightarrow> bool" where
  "once_inv w =
     (\<forall>ty sel. ordinaryKey sel
        \<longrightarrow> delegated ty sel w \<le> 1 \<and> (0 < delegated ty sel w \<longrightarrow> registered sel w))"

text \<open>
  \<open>unchanged_but A w w'\<close>: the document \<open>w'\<close> has the tree and the class lists of
  \<open>w\<close>, and its attributes too except those named in \<open>A\<close>.
\<close>

definition unchanged_but :: "string set \<Rightarrow> world \<Rightarrow> world \<Rightarrow> bool" where
  "unchanged_but A w w' \<longleftrightarrow>
     tree w' = tree w
     \<and> (\<forall>r k. classList_contains r k w' = classList_contains r k w)
     \<and> (\<forall>r a. a \<notin> A \<longrightarrow> getAttribute r a w' = getAttribute r a w)"

text \<open>
  Callbacks are the caller's code. They are quiet when they leave the instance and the
  document as they found them and the guard lets the transition pass; settings without
  callbacks are quiet. They keep the settings when no configured callback returns an
  instance with other settings. They keep the target hidden or shown when every
  callback of the table that returns leaves \<^verbatim>\<open>this.target\<close> and the
  \<^verbatim>\<open>aria-hidden\<close> attribute of that target as they are. They keep the triggers,
  for an active class, when every callback of the table that is called on an instance
  with that \<^verbatim>\<open>activeClass\<close> setting and returns leaves \<^verbatim>\<open>this.element\<close>,
  \<^verbatim>\<open>this.target\<close>, \<^verbatim>\<open>this.others\<close>, that setting and every element's
  membership of that class as they are.
\<close>

definition quiet :: "(nat \<Rightarrow> hook) \<Rightarrow> settings \<Rightarrow> bool" where
  "quiet H s \<longleftrightarrow>
     (\<forall>tw. callHook H (valid s) tw = Inr (True, tw))
     \<and> (\<forall>tw. \<exists>b. callHook H (before s) tw = Inr (b, tw))
     \<and> (\<forall>tw. \<exists>b. callHook H (after s) tw = Inr (b, tw))"

definition keepsSettings :: "(nat \<Rightarrow> hook) \<Rightarrow> settings \<Rightarrow> bool" where
  "keepsSettings H s \<longleftrightarrow>
     (\<forall>h tw b tw'. Some h \<in> {valid s, before s, after s} \<longrightarrow> H h tw = Inr (b, tw')
        \<longrightarrow> settings (fst tw') = settings (fst tw))"

definition keepsHidden :: "(nat \<Rightarrow> hook) \<Rightarrow> bool" where
  "keepsHidden H \<longleftrightarrow>
     (\<forall>h tw b tw'. H h tw = Inr (b, tw')
        \<longrightarrow> target (fst tw') = target (fst tw)
            \<and> (\<forall>g. target (fst tw) = Some g
                  \<longrightarrow> getAttribute g ''aria-hidden'' (snd tw') = getAttribute g ''aria-hidden'' (snd tw)))"


text \<open>
  Whether the guard lets a call of \<^verbatim>\<open>elementToggle\<close> pass: there is none, or it is
  called on the instance holding the elements of the call and returns a truthy value.
\<close>

definition guardPasses ::
  "(nat \<Rightarrow> hook) \<Rightarrow> ref \<Rightarrow> ref \<Rightarrow> ref list \<Rightarrow> toggle \<times> world \<Rightarrow> bool" where
  "guardPasses H el tg foc tw =
     (case getOthers el (snd tw) of
        Inl e \<Rightarrow> False
      | Inr os \<Rightarrow>
          (case callHook H (valid (settings (fst tw)))
                  ((fst tw)\<lparr>element := Some el, target := Some tg, others := os,
                            this_focusable := foc\<rparr>, snd tw) of
             Inl e \<Rightarrow> False
           | Inr r \<Rightarrow> fst r))"

text \<open>
  Whether the class blocks of one transition toggle the token \<open>k\<close> on the element
  \<open>r\<close> an odd number of times: the active class once for the trigger, once for the
  target and once for each occurrence among the other triggers, the inactive class once
  for the target argument.
\<close>

definition flipped :: "toggle \<Rightarrow> ref \<Rightarrow> ref \<Rightarrow> string \<Rightarrow> bool" where
  "flipped this tg r k =
     ((truthy (activeClass (settings this)) \<and> k = toStr (activeClass (settings this))
        \<and> odd ((if Some r = element this then 1 else 0) + (if Some r = target this then 1 else 0)
               + (if Some r \<noteq> element this then count_list (others this) r else 0)))
      \<noteq> (truthy (inactiveClass (settings this)) \<and> k = toStr (inactiveClass (settings this)) \<and> r = tg))"

text \<open>
  The element \<open>r\<close> shares the reference of the trigger: it has the trigger's
  \<^verbatim>\<open>href\<close> value, or, when the trigger has no \<^verbatim>\<open>href\<close>, its
  \<^verbatim>\<open>aria-controls\<close> value.
\<close>

text \<open>
  The value that \<^verbatim>\<open>getOthers\<close> puts between double quotes, the trigger's
  \<^verbatim>\<open>href\<close> or else its \<^verbatim>\<open>aria-controls\<close>, is plain: it holds no double quote,
  backslash, NUL or line break, so that inside the quotes it stands for itself.
\<close>

definition plainReference :: "ref \<Rightarrow> world \<Rightarrow> bool" where
  "plainReference el w =
     (case getAttribute el ''href'' w of
        Some h \<Rightarrow> list_all isPlain h
      | None \<Rightarrow>
          (case getAttribute el ''aria-controls'' w of
             Some c \<Rightarrow> list_all isPlain c
           | None \<Rightarrow> True))"


section \<open>Example documents\<close>

text \<open>An engine that reads no selector beyond those of the model.\<close>

definition strictEngine ::
  "string \<Rightarrow> ref option \<Rightarrow> (ref \<Rightarrow> elem) \<Rightarrow> (ref \<times> nat) list \<Rightarrow> ref option
     \<Rightarrow> string list \<Rightarrow> error + ref list" where
  "strictEngine s r es t a h = Inl SyntaxError"

definition plain :: elem where
  "plain = \<lparr>tagName = ''DIV'', attrs = Map.empty, classList = [], validity = True\<rparr>"

text \<open>A trigger (1) whose \<^verbatim>\<open>href\<close> names element 2 and whose
  \<^verbatim>\<open>aria-controls\<close> names element 3.\<close>

definition crossed :: world where
  "crossed =
     \<lparr>elems = (\<lambda>_. plain)
        (1 := plain\<lparr>tagName := ''A'', attrs := [''href'' \<mapsto> ''#a'', ''aria-controls'' \<mapsto> ''b'']\<rparr>,
         2 := plain\<lparr>attrs := [''id'' \<mapsto> ''a'']\<rparr>,
         3 := plain\<lparr>attrs := [''id'' \<mapsto> ''b'']\<rparr>),
      tree = [(1, 1), (2, 1), (3, 1)],
      engine = strictEngine, registry = None, listeners = [], history = [[]],
      activeElement = None,
      defaultPrevented = False\<rparr>"

definition emptyPage :: page where
  "emptyPage = \<lparr>console = [], bodyChildren = []\<rparr>"

definition notFound :: response where
  "notFound = \<lparr>ok = False, text_body = Fulfilled ''Not Found''\<rparr>"

text \<open>
  A page with two anchors (1 and 3) for the panel (2), which is hidden and holds a
  button (4); the same page with the second anchor already active; callback tables, the
  first letting every transition pass, the second refusing every one, the third emptying
  \<^verbatim>\<open>this.others\<close>; an instance with the default settings, one with a guard and one
  with a \<^verbatim>\<open>before\<close> hook; and the calls the examples use.
\<close>

definition demo :: world where
  "demo =
     \<lparr>elems = (\<lambda>_. plain)
        (1 := plain\<lparr>tagName := ''A'', attrs := [''href'' \<mapsto> ''#panel'', ''aria-expanded'' \<mapsto> ''false'']\<rparr>,
         2 := plain\<lparr>attrs := [''id'' \<mapsto> ''panel'', ''aria-hidden'' \<mapsto> ''true''],
                     classList := [''hidden'']\<rparr>,
         3 := plain\<lparr>tagName := ''A'', attrs := [''href'' \<mapsto> ''#panel'']\<rparr>,
         4 := plain\<lparr>tagName := ''BUTTON'', attrs := [''tabindex'' \<mapsto> ''-1'']\<rparr>),
      tree = [(1, 1), (3, 1), (2, 1), (4, 2)],
      engine = strictEngine, registry = None, listeners = [], history = [[]],
      activeElement = None,
      defaultPrevented = False\<rparr>"


definition noHooks :: "nat \<Rightarrow> hook" where
  "noHooks h tw = Inr (True, tw)"

definition refuse :: "nat \<Rightarrow> hook" where
  "refuse h tw = Inr (False, tw)"

definition rewires :: "nat \<Rightarrow> hook" where
  "rewires h tw = Inr (True, (fst tw)\<lparr>others := []\<rparr>, snd tw)"

definition plainToggle :: toggle where
  "plainToggle = fst (Toggle_constructor None demo)"

definition guardedToggle :: toggle where
  "guardedToggle = fst (Toggle_constructor (Some (no_options\<lparr>o_valid := Some 0\<rparr>)) demo)"

definition hookedToggle :: toggle where
  "hookedToggle = fst (Toggle_constructor (Some (no_options\<lparr>o_before := Some 0\<rparr>)) demo)"

definition opened :: "error + toggle \<times> world" where
  "opened = elementToggle noHooks 1 2 [4] (plainToggle, demo)"

definition closedAgain :: "error + toggle \<times> world" where
  "closedAgain = elementToggle noHooks 1 2 [4] (projr opened)"

definition refused :: "error + toggle \<times> world" where
  "refused = elementToggle refuse 1 2 [4] (guardedToggle, demo)"


definition rewired :: "error + toggle \<times> world" where
  "rewired = elementToggle rewires 1 2 [4] (hookedToggle, demo)"

definition clicked :: "error + toggle \<times> world" where
  "clicked = click noHooks \<lparr>ev_target = 1, ev_type = ''click'', ev_cancelable = True\<rparr> (plainToggle, demo)"

text \<open>
  A page whose only element is an anchor that names itself; a page with an anchor (1)
  whose \<^verbatim>\<open>href\<close> value holds a double quote, so that the selector built from it by
  \<^verbatim>\<open>getOthers\<close> reads \<^verbatim>\<open>[href="x"],[tabindex="-1"]\<close>, and a target (2) that
  is out of the tab order; and the calls on them.
\<close>

definition selfPage :: world where
  "selfPage =
     \<lparr>elems = (\<lambda>_. plain)
        (1 := plain\<lparr>tagName := ''A'', attrs := [''id'' \<mapsto> ''self'', ''href'' \<mapsto> ''#self'']\<rparr>),
      tree = [(1, 1)],
      engine = strictEngine, registry = None, listeners = [], history = [[]],
      activeElement = None,
      defaultPrevented = False\<rparr>"

definition injected :: world where
  \<open>injected =
     \<lparr>elems = (\<lambda>_. plain)
        (1 := plain\<lparr>tagName := ''A'', attrs := [''href'' \<mapsto> ''x"],[tabindex="-1'']\<rparr>,
         2 := plain\<lparr>attrs := [''id'' \<mapsto> ''panel'', ''tabindex'' \<mapsto> ''-1'']\<rparr>),
      tree = [(1, 1), (2, 1)],
      engine = strictEngine, registry = None, listeners = [], history = [[]],
      activeElement = None,
      defaultPrevented = False\<rparr>\<close>

definition selfOpened :: "error + toggle \<times> world" where
  "selfOpened = elementToggle noHooks 1 1 [] (plainToggle, selfPage)"

definition injectedOnce :: "error + toggle \<times> world" where
  "injectedOnce = elementToggle noHooks 1 2 [] (plainToggle, injected)"

definition injectedTwice :: "error + toggle \<times> world" where
  "injectedTwice = elementToggle noHooks 1 2 [] (projr injectedOnce)"

text \<open>
  The page \<open>demo\<close> with its elements inside a container (5); the accordion toggle,
  whose \<^verbatim>\<open>after\<close> hook is the callback at every place of the table; and a transition
  of it fired from the first anchor.
\<close>

definition nested :: world where
  "nested = demo\<lparr>tree := (5, 0) # tree demo\<rparr>"

definition accordionHooks :: "nat \<Rightarrow> hook" where
  "accordionHooks h = accordion_after"

definition accordionToggle :: toggle where
  "accordionToggle = fst (accordion 0 nested)"

definition expanded :: "error + toggle \<times> world" where
  "expanded = elementToggle accordionHooks 1 2 [4] (accordionToggle, nested)"

text \<open>The options of a construction with the selector \<^verbatim>\<open>__proto__\<close>, a type
  selector, and without the \<^verbatim>\<open>element\<close> option.\<close>

definition protoOptions :: options where
  "protoOptions = no_options\<lparr>o_selector := JStr ''__proto__''\<rparr>"


section \<open>Properties\<close>

subsection \<open>Slugs\<close>

text \<open>Applied to a slug, \<^verbatim>\<open>createSlug\<close> deletes its hyphens and changes nothing else.\<close>

lemma replaceRuns_delete: "replaceRuns C [] b s = filter (\<lambda>c. \<not> C c) s"
  by (induction s arbitrary: b) auto

lemma replaceRuns_none: "\<forall>c\<in>set s. \<not> C c \<Longrightarrow> replaceRuns C r b s = s"
  by (induction s arbitrary: b) auto

lemma replaceRuns_set: "set (replaceRuns C r b s) \<subseteq> {c \<in> set s. \<not> C c} \<union> set r"
  by (induction s arbitrary: b) auto

lemma toLowerChar_not_upper: "\<not> (65 \<le> (of_char (toLowerChar c) :: nat) \<and> (of_char (toLowerChar c) :: nat) \<le> 90)"
  by (auto simp: toLowerChar_def Let_def)

lemma slugChar_lower: "slugChar c \<Longrightarrow> toLowerChar c = c"
  by (auto simp: slugChar_def toLowerChar_def Let_def)

lemma slugChar_keeps: "slugChar c \<Longrightarrow> slugKeeps c = (c \<noteq> CHR ''-'')"
  by (auto simp: slugChar_def slugKeeps_def Let_def)

lemma slugChar_space: "slugChar c \<Longrightarrow> \<not> isWhiteSpace c"
  by (auto simp: slugChar_def isWhiteSpace_def Let_def)

lemma keeps_lower_slugChar:
  "slugKeeps (toLowerChar c) \<Longrightarrow> \<not> isWhiteSpace (toLowerChar c) \<Longrightarrow> slugChar (toLowerChar c)"
  using toLowerChar_not_upper [of c]
  by (auto simp: slugChar_def slugKeeps_def isWhiteSpace_def Let_def)

lemma createSlug_chars: "c \<in> set (createSlug x) \<Longrightarrow> slugChar c"
proof -
  assume c: "c \<in> set (createSlug x)"
  let ?s1 = "replaceAllRuns (\<lambda>c. \<not> slugKeeps c) '''' (toLowerCase x)"
  let ?s2 = "replaceAllRuns isWhiteSpace ''-'' ?s1"
  have s1: "\<And>d. d \<in> set ?s1 \<Longrightarrow> slugKeeps d \<and> (\<exists>e. d = toLowerChar e)"
    by (auto simp: replaceAllRuns_def replaceRuns_delete toLowerCase_def)
  have s2: "\<And>d. d \<in> set ?s2 \<Longrightarrow> slugChar d"
  proof -
    fix d assume "d \<in> set ?s2"
    then have "(d \<in> set ?s1 \<and> \<not> isWhiteSpace d) \<or> d = CHR ''-''"
      using replaceRuns_set [of isWhiteSpace "''-''" False ?s1] by (auto simp: replaceAllRuns_def)
    then show "slugChar d"
    proof
      assume "d \<in> set ?s1 \<and> \<not> isWhiteSpace d"
      with s1 [of d] show ?thesis using keeps_lower_slugChar by auto
    next
      assume "d = CHR ''-''"
      then show ?thesis by (simp add: slugChar_def)
    qed
  qed
  have "c \<in> set ?s2 \<or> c = CHR ''-''"
    using c replaceRuns_set [of "\<lambda>c. c = CHR ''-''" "''-''" False ?s2]
    by (auto simp: createSlug_def replaceAllRuns_def)
  then show ?thesis
    using s2 by (auto simp: slugChar_def)
qed

lemma createSlug_twice:
  "createSlug (createSlug x) = filter (\<lambda>c. c \<noteq> CHR ''-'') (createSlug x)"
proof -
  let ?y = "createSlug x"
  have sc: "\<forall>c\<in>set ?y. slugChar c"
    using createSlug_chars by blast
  have low: "toLowerCase ?y = ?y"
    unfolding toLowerCase_def using sc slugChar_lower by (simp add: map_idI)
  have strip: "replaceAllRuns (\<lambda>c. \<not> slugKeeps c) '''' ?y = filter (\<lambda>c. c \<noteq> CHR ''-'') ?y"
    unfolding replaceAllRuns_def replaceRuns_delete
    using sc slugChar_keeps by (intro filter_cong) auto
  let ?z = "filter (\<lambda>c. c \<noteq> CHR ''-'') ?y"
  have ws: "replaceAllRuns isWhiteSpace ''-'' ?z = ?z"
    unfolding replaceAllRuns_def using sc slugChar_space by (intro replaceRuns_none) auto
  have hy: "replaceAllRuns (\<lambda>c. c = CHR ''-'') ''-'' ?z = ?z"
    unfolding replaceAllRuns_def by (intro replaceRuns_none) auto
  show ?thesis
    unfolding createSlug_def [of ?y] low strip ws hy ..
qed

text \<open>
  C3. The spec says \<^verbatim>\<open>createSlug(createSlug(x)) === createSlug(x)\<close> for every string.
  On the code the second application deletes the hyphens the first one wrote for the
  spaces: the title of the spec's own example gives \<^verbatim>\<open>help-with-anxiety\<close>, and the slug
  of that is \<^verbatim>\<open>helpwithanxiety\<close>.
\<close>

theorem createSlug_not_idempotent:
  "createSlug ''Help With Anxiety'' = ''help-with-anxiety''
   \<and> createSlug (createSlug ''Help With Anxiety'') = ''helpwithanxiety''"
  by code_simp

subsection \<open>Target resolution\<close>

lemma isIdentChar_facts:
  "isIdentChar c \<Longrightarrow> c \<noteq> CHR '','' \<and> c \<noteq> CHR 0x22 \<and> \<not> isAsciiWhitespace c"
  by (auto simp: isIdentChar_def isAsciiWhitespace_def Let_def)

lemma isIdent_chars: "isIdent s \<Longrightarrow> s \<noteq> [] \<and> list_all isIdentChar s"
  by (induction s rule: isIdent.induct) auto

lemma splitTop_absent:
  "CHR 0x22 \<notin> set cs \<Longrightarrow> CHR '','' \<notin> set cs \<Longrightarrow> splitTop b piece cs = [piece @ cs]"
  by (induction cs arbitrary: piece) auto

lemma trim_self:
  "cs \<noteq> [] \<Longrightarrow> \<not> isAsciiWhitespace (hd cs) \<Longrightarrow> \<not> isAsciiWhitespace (last cs) \<Longrightarrow> trim cs = cs"
proof -
  assume ne: "cs \<noteq> []" and h: "\<not> isAsciiWhitespace (hd cs)" and l: "\<not> isAsciiWhitespace (last cs)"
  have a: "dropWhile isAsciiWhitespace cs = cs"
    using h by (simp add: dropWhile_eq_self_iff)
  have b: "dropWhile isAsciiWhitespace (rev cs) = rev cs"
    using ne l by (simp add: dropWhile_eq_self_iff hd_rev)
  show ?thesis by (simp add: trim_def a b)
qed

lemma parseSelector_id:
  assumes "isIdent c"
  shows "parseSelector (CHR ''#'' # c) = Some [ById c]"
proof -
  from assms have ne: "c \<noteq> []" and all: "list_all isIdentChar c"
    using isIdent_chars by auto
  have noq: "CHR 0x22 \<notin> set c" and noc: "CHR '','' \<notin> set c"
    using all isIdentChar_facts by (auto simp: list_all_iff)
  have "\<not> isAsciiWhitespace (last c)"
    using all ne isIdentChar_facts by (auto simp: list_all_iff)
  moreover have "\<not> isAsciiWhitespace (CHR ''#'')"
    by (simp add: isAsciiWhitespace_def)
  ultimately have tr: "trim (CHR ''#'' # c) = CHR ''#'' # c"
    using ne by (intro trim_self) auto
  have sp: "splitTop False [] (CHR ''#'' # c) = [CHR ''#'' # c]"
    using noc noq splitTop_absent [of "CHR ''#'' # c" False "[]"] by simp
  show ?thesis
    using assms by (simp add: parseSelector_def sp tr del: splitTop.simps)
qed

lemma first_of_filter:
  "(case filter P xs of [] \<Rightarrow> None | r # _ \<Rightarrow> Some r) = find P xs"
  by (induction xs) auto

lemma selects_id: "selects [ById c] w = (\<lambda>r. getAttribute r ''id'' w = Some c)"
  by (rule ext) (simp add: selects_def getAttribute_def)

lemma querySelector_id:
  "isIdent c \<Longrightarrow>
   querySelector (CHR ''#'' # c) w = Inr (find (\<lambda>r. getAttribute r ''id'' w = Some c) (map fst (tree w)))"
  by (simp add: querySelector_def querySelectorAll_def parseSelector_id first_of_filter
      selects_id)

text \<open>
  C1 (amended). \<^verbatim>\<open>getTarget\<close> assigns the \<^verbatim>\<open>href\<close> lookup first and the
  \<^verbatim>\<open>aria-controls\<close> lookup second, so the second wins: a trigger with
  \<^verbatim>\<open>aria-controls\<close> gets the first element whose id is that value (provided the
  \<^verbatim>\<open>href\<close> lookup, when there is one, did not throw); a trigger with only
  \<^verbatim>\<open>href\<close> gets what \<^verbatim>\<open>querySelector(href)\<close> finds; a trigger with neither gets
  no target; and an \<^verbatim>\<open>href\<close> that is not a selector makes the call throw.
\<close>

theorem getTarget_controls_first:
  "(getAttribute el ''aria-controls'' w = Some c \<and> getAttribute el ''href'' w = None
      \<longrightarrow> getTarget el w = querySelector (''#'' @ c) w)
   \<and> (getAttribute el ''aria-controls'' w = Some c \<and> getAttribute el ''href'' w = Some h
        \<and> querySelector h w = Inr x
      \<longrightarrow> getTarget el w = querySelector (''#'' @ c) w)
   \<and> (getAttribute el ''aria-controls'' w = None \<and> getAttribute el ''href'' w = Some h
      \<longrightarrow> getTarget el w = querySelector h w)
   \<and> (getAttribute el ''aria-controls'' w = None \<and> getAttribute el ''href'' w = None
      \<longrightarrow> getTarget el w = Inr None)
   \<and> (getAttribute el ''href'' w = Some h \<and> querySelector h w = Inl e
      \<longrightarrow> getTarget el w = Inl e)
   \<and> (isIdent c
      \<longrightarrow> querySelector (''#'' @ c) w
          = Inr (find (\<lambda>r. getAttribute r ''id'' w = Some c) (map fst (tree w))))"
  by (auto simp: getTarget_def bindE_def querySelector_id split: sum.splits)

text \<open>
  C1 as the specification states it, with \<^verbatim>\<open>href\<close> taking priority, fails on the
  document \<open>crossed\<close>: the trigger carries both attributes, the \<^verbatim>\<open>href\<close> lookup
  finds element 2, and \<^verbatim>\<open>getTarget\<close> returns element 3.
\<close>

theorem getTarget_href_first_counterexample:
  "getAttribute 1 ''href'' crossed = Some ''#a''
   \<and> getAttribute 1 ''aria-controls'' crossed = Some ''b''
   \<and> querySelector ''#a'' crossed = Inr (Some 2)
   \<and> getTarget_spec 1 crossed = Inr (Some 2)
   \<and> getTarget 1 crossed = Inr (Some 3)"
  by code_simp

theorem getTarget_controls_first_witness:
  "getAttribute 1 ''aria-controls'' crossed = Some ''b''
   \<and> getAttribute 1 ''href'' crossed = Some ''#a''
   \<and> querySelector ''#a'' crossed = Inr (Some 2)
   \<and> isIdent ''b''
   \<and> getTarget 1 crossed = Inr (Some 3)"
  using getTarget_controls_first [of 1 crossed "''b''" "''#a''" "Some 2"]
  by (simp add: crossed_def plain_def getAttribute_def querySelector_def querySelectorAll_def
      parseSelector_def trim_def isAsciiWhitespace_def isIdentChar_def isDigit_def selects_def)

subsection \<open>The icon sprite\<close>

text \<open>
  C2. The specification says that after a failed fetch nothing is injected. In the code the
  callback that builds and appends the sprite is chained after the \<^verbatim>\<open>catch\<close>, so it
  runs in every case: after a response that is not OK, and after a rejection, the first two
  callbacks log and hand on \<^verbatim>\<open>undefined\<close>, and the body receives a hidden
  \<^verbatim>\<open>div\<close> whose content is the text \<^verbatim>\<open>undefined\<close>.
\<close>

theorem Icons_failure_appends_sprite:
  assumes "fetchFailed (fetch (toStr (if truthy path then path else JStr Icons_path)))"
  shows "bodyChildren (Icons_constructor path fetch pg)
         = bodyChildren pg @ [\<lparr>sp_tagName = ''DIV'', sp_innerHTML = ''undefined'',
             sp_attrs = [(''aria-hidden'', ''true''), (''style'', ''display: none;'')]\<rparr>]
       \<and> length (console (Icons_constructor path fetch pg)) = Suc (length (console pg))"
proof (cases "fetch (toStr (if truthy path then path else JStr Icons_path))")
  case (Fulfilled response)
  with assms have "\<not> ok response"
    by (simp add: fetchFailed_def)
  with Fulfilled show ?thesis
    by (simp add: Icons_constructor_def thenP_def catchP_def Let_def split del: if_split)
next
  case (Rejected e)
  then show ?thesis
    by (simp add: Icons_constructor_def thenP_def catchP_def Let_def split del: if_split)
qed

theorem Icons_failure_appends_sprite_witness:
  "fetchFailed (Fulfilled notFound)
   \<and> bodyChildren (Icons_constructor JUndefined (\<lambda>p. Fulfilled notFound) emptyPage)
     = [\<lparr>sp_tagName = ''DIV'', sp_innerHTML = ''undefined'',
         sp_attrs = [(''aria-hidden'', ''true''), (''style'', ''display: none;'')]\<rparr>]
   \<and> console (Icons_constructor JUndefined (\<lambda>p. Fulfilled notFound) emptyPage) = [DirResponse notFound]"
  using Icons_failure_appends_sprite [of "\<lambda>p. Fulfilled notFound" JUndefined emptyPage]
  by (simp add: fetchFailed_def notFound_def emptyPage_def Icons_constructor_def thenP_def catchP_def)

subsection \<open>The constructor\<close>

lemma falsy_values:
  "(\<not> truthy v) = (v \<in> set [JUndefined, JNull, JBool False, JNum 0, JNaN, JStr []])"
  by (cases v) auto

text \<open>
  C10. An \<^verbatim>\<open>activeClass\<close> (or \<^verbatim>\<open>inactiveClass\<close>) option that is falsy, which
  by \<open>falsy_values\<close> is one of \<^verbatim>\<open>undefined\<close>, \<^verbatim>\<open>null\<close>, \<^verbatim>\<open>false\<close>,
  \<^verbatim>\<open>0\<close>, \<^verbatim>\<open>NaN\<close> and the empty string, gives the instance the class default
  \<^verbatim>\<open>active\<close> (respectively \<^verbatim>\<open>hidden\<close>), as does a missing settings object; the
  two settings of a constructed instance are never falsy.
\<close>

theorem constructor_falsy_class_defaults:
  "(\<not> truthy (o_activeClass s)
      \<longrightarrow> activeClass (settings (fst (Toggle_constructor (Some s) w))) = JStr ''active'')
   \<and> (\<not> truthy (o_inactiveClass s)
      \<longrightarrow> inactiveClass (settings (fst (Toggle_constructor (Some s) w))) = JStr ''hidden'')
   \<and> activeClass (settings (fst (Toggle_constructor None w))) = JStr ''active''
   \<and> inactiveClass (settings (fst (Toggle_constructor None w))) = JStr ''hidden''
   \<and> truthy (activeClass (settings (fst (Toggle_constructor so w))))
   \<and> truthy (inactiveClass (settings (fst (Toggle_constructor so w))))"
  by (auto simp: Toggle_constructor_def Let_def Toggle_activeClass_def Toggle_inactiveClass_def
      no_options_def split: option.splits)

theorem constructor_falsy_class_defaults_witness:
  "\<not> truthy (JBool False) \<and> \<not> truthy (JStr [])
   \<and> activeClass (settings (fst (Toggle_constructor
        (Some (no_options\<lparr>o_activeClass := JBool False, o_inactiveClass := JStr []\<rparr>)) crossed)))
      = JStr ''active''
   \<and> inactiveClass (settings (fst (Toggle_constructor
        (Some (no_options\<lparr>o_activeClass := JBool False, o_inactiveClass := JStr []\<rparr>)) crossed)))
      = JStr ''hidden''"
  using constructor_falsy_class_defaults
    [of "no_options\<lparr>o_activeClass := JBool False, o_inactiveClass := JStr []\<rparr>" crossed None]
  by (simp add: no_options_def)

lemma registered_assignTrue:
  "k \<noteq> ''__proto__'' \<Longrightarrow> hasOwnProperty (assignTrue k a) k"
  by (auto simp: hasOwnProperty_def assignTrue_def split: option.splits)

lemma ordinary_assignTrue:
  "ordinaryKey sel \<Longrightarrow> hasOwnProperty a sel \<Longrightarrow> hasOwnProperty (assignTrue k a) sel"
  by (auto simp: hasOwnProperty_def assignTrue_def ordinaryKey_def split: option.splits)

lemma constructor_registry:
  "registry (snd (Toggle_constructor so w))
   = Some (assignTrue (toStr (selector (settings (fst (Toggle_constructor so w)))))
             (case registry w of None \<Rightarrow> \<lparr>arr_length = 0, arr_keys = []\<rparr> | Some a \<Rightarrow> a))"
  by (cases so; cases "registry w") (simp_all add: Toggle_constructor_def Let_def)

lemma constructor_registered:
  "toStr (selector (settings (fst (Toggle_constructor so w)))) \<noteq> ''__proto__'' \<Longrightarrow>
   registered (toStr (selector (settings (fst (Toggle_constructor so w))))) (snd (Toggle_constructor so w))"
  unfolding registered_def constructor_registry by (simp add: registered_assignTrue)

lemma constructor_keeps_registered:
  "ordinaryKey sel \<Longrightarrow> registered sel w \<Longrightarrow> registered sel (snd (Toggle_constructor so w))"
  unfolding registered_def constructor_registry by (simp add: ordinary_assignTrue)

lemma constructor_listeners:
  "listeners (snd (Toggle_constructor so w)) =
     listeners w @
       (case element (fst (Toggle_constructor so w)) of
          Some e \<Rightarrow> [\<lparr>l_on = Node e, l_type = ''click'', l_handler = Direct\<rparr>]
        | None \<Rightarrow>
            if registered (toStr (selector (settings (fst (Toggle_constructor so w))))) w then []
            else map (\<lambda>ty. \<lparr>l_on = Body, l_type = ty,
                   l_handler = Delegated (toStr (selector (settings (fst (Toggle_constructor so w)))))\<rparr>)
                   Toggle_events)"
  by (cases so; cases "registry w")
     (auto simp: Toggle_constructor_def Let_def registered_def addEventListener_def
      Toggle_events_def hasOwnProperty_def no_options_def Toggle_selector_def split: option.splits)

lemma constructor_delegated:
  "delegated ty sel (snd (Toggle_constructor so w)) =
     delegated ty sel w +
       (if element (fst (Toggle_constructor so w)) = None
           \<and> \<not> registered (toStr (selector (settings (fst (Toggle_constructor so w))))) w
           \<and> sel = toStr (selector (settings (fst (Toggle_constructor so w))))
           \<and> ty \<in> set Toggle_events
        then 1 else 0)"
  unfolding delegated_def constructor_listeners
  by (cases "element (fst (Toggle_constructor so w))") (auto simp: Toggle_events_def)

text \<open>
  For the ordinary keys the registry does what its comment says: a page on which every
  ordinary selector has at most one delegated listener for each event type, and is
  registered when it has one, stays so under every construction.
\<close>

lemma constructor_inv: "once_inv w \<Longrightarrow> once_inv (snd (Toggle_constructor so w))"
proof -
  assume inv: "once_inv w"
  show ?thesis
    unfolding once_inv_def
  proof (intro allI conjI impI)
    fix ty sel
    assume ord: "ordinaryKey sel"
    show "delegated ty sel (snd (Toggle_constructor so w)) \<le> 1"
    proof (cases "registered sel w")
      case True
      then show ?thesis
        using inv ord by (auto simp: constructor_delegated once_inv_def)
    next
      case False
      with inv ord have "delegated ty sel w = 0"
        unfolding once_inv_def by (metis not_gr_zero)
      then show ?thesis
        by (simp add: constructor_delegated)
    qed
  next
    fix ty sel
    assume ord: "ordinaryKey sel"
      and pos: "0 < delegated ty sel (snd (Toggle_constructor so w))"
    show "registered sel (snd (Toggle_constructor so w))"
    proof (cases "0 < delegated ty sel w")
      case True
      with inv ord have "registered sel w"
        by (simp add: once_inv_def)
      with ord show ?thesis
        by (rule constructor_keeps_registered)
    next
      case False
      with pos have "sel = toStr (selector (settings (fst (Toggle_constructor so w))))"
        by (simp add: constructor_delegated split: if_splits)
      then show ?thesis
        using ord constructor_registered [of so w] by (simp add: ordinaryKey_def)
    qed
  qed
qed

lemma constructAll_inv: "once_inv w \<Longrightarrow> once_inv (constructAll ss w)"
  by (induction ss arbitrary: w) (auto simp: constructAll_def constructor_inv)

lemma constructAll_ordinary_once:
  assumes "listeners w0 = []" and "ordinaryKey sel"
  shows "delegated ty sel (constructAll ss w0) \<le> 1"
proof -
  have "once_inv w0"
    using assms(1) by (simp add: once_inv_def delegated_def)
  then have "once_inv (constructAll ss w0)"
    by (rule constructAll_inv)
  with assms(2) show ?thesis
    by (simp add: once_inv_def)
qed

text \<open>
  C7. The specification says that a second construction with a selector already used
  attaches no further delegated listener and that the selector is in the registry after
  a construction; the constructor's comment says the same (\<^verbatim>\<open>Record that a toggle using
  this selector has been instantiated. This prevents double toggling.\<close>). The registry is
  an array, and for the selector \<^verbatim>\<open>__proto__\<close> the assignment that should record it
  creates no property: after one construction without the \<^verbatim>\<open>element\<close> option the
  body has one delegated listener for each of the two event types and the selector is
  not registered, and after the second construction with the same selector it has two
  for each.
\<close>

theorem delegated_listener_twice:
  "o_element protoOptions = None
   \<and> delegated ''click'' ''__proto__'' (constructAll [Some protoOptions] crossed) = 1
   \<and> delegated ''change'' ''__proto__'' (constructAll [Some protoOptions] crossed) = 1
   \<and> \<not> registered ''__proto__'' (constructAll [Some protoOptions] crossed)
   \<and> delegated ''click'' ''__proto__'' (constructAll [Some protoOptions, Some protoOptions] crossed) = 2
   \<and> delegated ''change'' ''__proto__'' (constructAll [Some protoOptions, Some protoOptions] crossed) = 2
   \<and> \<not> registered ''__proto__'' (constructAll [Some protoOptions, Some protoOptions] crossed)"
  by code_simp

subsection \<open>Operations on the document\<close>

lemma getAttribute_setAttribute [simp]:
  "getAttribute r a (setAttribute r' a' v w) = (if r = r' \<and> a = a' then Some v else getAttribute r a w)"
  by (simp add: getAttribute_def setAttribute_def)

lemma getAttribute_removeAttribute [simp]:
  "getAttribute r a (removeAttribute r' a' w) = (if r = r' \<and> a = a' then None else getAttribute r a w)"
  by (simp add: getAttribute_def removeAttribute_def)

lemma tree_setAttribute [simp]: "tree (setAttribute r a v w) = tree w"
  by (simp add: setAttribute_def)

lemma tree_removeAttribute [simp]: "tree (removeAttribute r a w) = tree w"
  by (simp add: removeAttribute_def)

lemma contains_setAttribute [simp]:
  "classList_contains r k (setAttribute r' a v w) = classList_contains r k w"
  by (simp add: classList_contains_def setAttribute_def)

lemma contains_removeAttribute [simp]:
  "classList_contains r k (removeAttribute r' a w) = classList_contains r k w"
  by (simp add: classList_contains_def removeAttribute_def)

lemma pushState_frame [simp]:
  "getAttribute r a (pushState w) = getAttribute r a w"
  "classList_contains r k (pushState w) = classList_contains r k w"
  "tree (pushState w) = tree w"
  by (simp_all add: pushState_def getAttribute_def classList_contains_def)

lemma setLocationHash_frame [simp]:
  "getAttribute r a (setLocationHash v w) = getAttribute r a w"
  "classList_contains r k (setLocationHash v w) = classList_contains r k w"
  "tree (setLocationHash v w) = tree w"
  by (simp_all add: setLocationHash_def getAttribute_def classList_contains_def Let_def)

lemma focus_frame [simp]:
  "getAttribute r a (focus x w) = getAttribute r a w"
  "classList_contains r k (focus x w) = classList_contains r k w"
  "tree (focus x w) = tree w"
  by (simp_all add: focus_def getAttribute_def classList_contains_def)

lemma toggleToken_member: "(k' \<in> set (toggleToken k cs)) = ((k' \<in> set cs) \<noteq> (k' = k))"
  by (auto simp: toggleToken_def)

lemma classList_toggle_effect:
  assumes "classList_toggle r k w = Inr w'"
  shows "tree w' = tree w"
    and "getAttribute r' a w' = getAttribute r' a w"
    and "classList_contains r' k' w' = (classList_contains r' k' w \<noteq> (r' = r \<and> k' = k))"
  using assms
  by (auto simp: classList_toggle_def getAttribute_def classList_contains_def toggleToken_member
      split: if_splits)

lemma bindE_Inr: "(bindE m f = Inr y) = (\<exists>x. m = Inr x \<and> f x = Inr y)"
  by (cases m) (simp_all add: bindE_def)

subsection \<open>The selector built by getOthers\<close>

lemma isPlain_quote: "\<not> isPlain (CHR 0x22)"
  by (simp add: isPlain_def)

lemma dropWhile_plain_quoted:
  "(dropWhile isPlain (v @ [CHR 0x22, CHR '']'']) = [CHR 0x22, CHR '']'']) = list_all isPlain v"
proof (induction v)
  case Nil
  show ?case by (simp add: isPlain_quote)
next
  case (Cons c v)
  show ?case
  proof (cases "isPlain c")
    case True
    with Cons show ?thesis by simp
  next
    case False
    have "length (c # v @ [CHR 0x22, CHR '']'']) \<noteq> length [CHR 0x22, CHR '']'']"
      by simp
    then have "c # v @ [CHR 0x22, CHR '']''] \<noteq> [CHR 0x22, CHR '']'']"
      by (metis)
    with False show ?thesis by simp
  qed
qed

lemma takeWhile_plain_quoted:
  "list_all isPlain v \<Longrightarrow> takeWhile isPlain (v @ [CHR 0x22, CHR '']'']) = v"
  by (induction v) (simp_all add: isPlain_quote)

lemma isPlain_not_quote: "isPlain c \<Longrightarrow> c \<noteq> CHR 0x22"
  by (auto simp: isPlain_def)

lemma parseSimple_href:
  \<open>list_all isPlain v \<Longrightarrow> parseSimple (''[href="'' @ v @ ''"]'') = Some (AttrEq ''href'' v)\<close>
  using dropWhile_plain_quoted [of v] takeWhile_plain_quoted [of v]
  by (simp add: isIdentChar_def isDigit_def isAttrName_def isAsciiUpper_def exactAttributes_def)

lemma parseSimple_controls:
  \<open>list_all isPlain v \<Longrightarrow>
   parseSimple (''[aria-controls="'' @ v @ ''"]'') = Some (AttrEq ''aria-controls'' v)\<close>
  using dropWhile_plain_quoted [of v] takeWhile_plain_quoted [of v]
  by (simp add: isIdentChar_def isDigit_def isAttrName_def isAsciiUpper_def exactAttributes_def)

lemma splitTop_quoted:
  "list_all isPlain v \<Longrightarrow>
   splitTop True piece (v @ [CHR 0x22, CHR '']'']) = [piece @ v @ [CHR 0x22, CHR '']'']]"
  by (induction v arbitrary: piece) (auto dest: isPlain_not_quote)

lemma splitTop_href:
  \<open>list_all isPlain v \<Longrightarrow> splitTop False [] (''[href="'' @ v @ ''"]'') = [''[href="'' @ v @ ''"]'']\<close>
  by (simp add: splitTop_quoted)

lemma splitTop_controls:
  \<open>list_all isPlain v \<Longrightarrow>
   splitTop False [] (''[aria-controls="'' @ v @ ''"]'') = [''[aria-controls="'' @ v @ ''"]'']\<close>
  by (simp add: splitTop_quoted)

lemma selects_attrEq: "selects [AttrEq a v] w = (\<lambda>r. getAttribute r a w = Some v)"
  by (rule ext) (simp add: selects_def getAttribute_def)

lemma querySelectorAll_href:
  assumes \<open>list_all isPlain v\<close>
  shows \<open>querySelectorAll (''[href="'' @ v @ ''"]'') w =
           Inr (filter (\<lambda>r. getAttribute r ''href'' w = Some v) (map fst (tree w)))\<close>
proof -
  have t: \<open>trim (''[href="'' @ v @ ''"]'') = ''[href="'' @ v @ ''"]''\<close>
    by (rule trim_self) (simp_all add: isAsciiWhitespace_def)
  have p: \<open>parseSelector (''[href="'' @ v @ ''"]'') = Some [AttrEq ''href'' v]\<close>
    unfolding parseSelector_def splitTop_href [OF assms]
    by (simp only: list.map t parseSimple_href [OF assms] those.simps option.case option.map)
  show ?thesis
    unfolding querySelectorAll_def p
    by (simp add: selects_attrEq)
qed

lemma querySelectorAll_controls:
  assumes \<open>list_all isPlain v\<close>
  shows \<open>querySelectorAll (''[aria-controls="'' @ v @ ''"]'') w =
           Inr (filter (\<lambda>r. getAttribute r ''aria-controls'' w = Some v) (map fst (tree w)))\<close>
proof -
  have t: \<open>trim (''[aria-controls="'' @ v @ ''"]'') = ''[aria-controls="'' @ v @ ''"]''\<close>
    by (rule trim_self) (simp_all add: isAsciiWhitespace_def)
  have p: \<open>parseSelector (''[aria-controls="'' @ v @ ''"]'') = Some [AttrEq ''aria-controls'' v]\<close>
    unfolding parseSelector_def splitTop_controls [OF assms]
    by (simp only: list.map t parseSimple_controls [OF assms] those.simps option.case option.map)
  show ?thesis
    unfolding querySelectorAll_def p
    by (simp add: selects_attrEq)
qed

text \<open>For a trigger with a plain reference, the others are the attached elements whose
  \<^verbatim>\<open>href\<close> is the trigger's, or, for a trigger without \<^verbatim>\<open>href\<close>, whose
  \<^verbatim>\<open>aria-controls\<close> is the trigger's.\<close>

lemma getOthers_eq:
  assumes "plainReference el w"
  shows "getOthers el w =
     Inr (case getAttribute el ''href'' w of
            Some h \<Rightarrow> filter (\<lambda>r. getAttribute r ''href'' w = Some h) (map fst (tree w))
          | None \<Rightarrow>
              (case getAttribute el ''aria-controls'' w of
                 Some c \<Rightarrow> filter (\<lambda>r. getAttribute r ''aria-controls'' w = Some c) (map fst (tree w))
               | None \<Rightarrow> []))"
proof (cases "getAttribute el ''href'' w")
  case (Some h)
  with assms have "list_all isPlain h"
    by (simp add: plainReference_def)
  from querySelectorAll_href [OF this] Some show ?thesis
    by (simp only: getOthers_def option.case)
next
  case None
  show ?thesis
  proof (cases "getAttribute el ''aria-controls'' w")
    case (Some c)
    with assms None have "list_all isPlain c"
      by (simp add: plainReference_def)
    from querySelectorAll_controls [OF this] None Some show ?thesis
      by (simp only: getOthers_def option.case)
  next
    case n: None
    with None show ?thesis
      by (simp only: getOthers_def option.case)
  qed
qed

lemma plainReference_cong:
  assumes "\<And>r. getAttribute r ''href'' w' = getAttribute r ''href'' w"
    and "\<And>r. getAttribute r ''aria-controls'' w' = getAttribute r ''aria-controls'' w"
  shows "plainReference el w' = plainReference el w"
  by (simp add: plainReference_def assms cong: option.case_cong)

lemma getOthers_cong:
  assumes "plainReference el w"
    and "tree w' = tree w"
    and "\<And>r. getAttribute r ''href'' w' = getAttribute r ''href'' w"
    and "\<And>r. getAttribute r ''aria-controls'' w' = getAttribute r ''aria-controls'' w"
  shows "getOthers el w' = getOthers el w"
proof -
  have "plainReference el w'"
    using assms(1) plainReference_cong [OF assms(3) assms(4)] by simp
  from getOthers_eq [OF this] getOthers_eq [OF assms(1)] show ?thesis
    by (simp add: assms(2-4) cong: option.case_cong)
qed




subsection \<open>The blocks of a transition\<close>

lemma unchanged_but_refl: "unchanged_but A w w"
  by (simp add: unchanged_but_def)

lemma unchanged_but_trans:
  "unchanged_but A w w1 \<Longrightarrow> unchanged_but B w1 w2 \<Longrightarrow> unchanged_but (A \<union> B) w w2"
  by (simp add: unchanged_but_def)

lemma unchanged_but_mono: "unchanged_but A w w' \<Longrightarrow> A \<subseteq> B \<Longrightarrow> unchanged_but B w w'"
  unfolding unchanged_but_def by (meson subsetD)

lemma unchanged_but_setAttribute: "unchanged_but {a} w (setAttribute r a v w)"
  by (simp add: unchanged_but_def)

lemma unchanged_but_removeAttribute: "unchanged_but {a} w (removeAttribute r a w)"
  by (simp add: unchanged_but_def)

lemma toggleFocusableOne_frame: "unchanged_but {''tabindex''} w (toggleFocusableOne r w)"
  by (simp add: toggleFocusableOne_def unchanged_but_setAttribute unchanged_but_removeAttribute
      split: option.splits)

lemma fold_toggleFocusableOne_frame: "unchanged_but {''tabindex''} w (fold toggleFocusableOne rs w)"
proof (induction rs arbitrary: w)
  case Nil
  show ?case by (simp add: unchanged_but_refl)
next
  case (Cons r rs)
  have "unchanged_but ({''tabindex''} \<union> {''tabindex''}) w (fold toggleFocusableOne rs (toggleFocusableOne r w))"
    using toggleFocusableOne_frame Cons.IH by (rule unchanged_but_trans)
  then show ?case by simp
qed

lemma toggleFocusable_frame:
  "fst (toggleFocusable rs tw) = fst tw"
  "unchanged_but {''tabindex''} (snd tw) (snd (toggleFocusable rs tw))"
  by (simp_all add: toggleFocusable_def fold_toggleFocusableOne_frame)

lemma jumpTo_frame:
  "fst (jumpTo e g tw) = fst tw"
  "unchanged_but {''tabindex''} (snd tw) (snd (jumpTo e g tw))"
  by (simp_all add: jumpTo_def Let_def unchanged_but_def)

lemma toggleTargetAria_effect:
  assumes "toggleTargetAria (this, w) = Inr w'"
  shows "unchanged_but {''aria-hidden''} w w'"
    and "target this = Some g \<Longrightarrow> getAttribute g ''aria-hidden'' w = Some ''true''
         \<Longrightarrow> getAttribute g ''aria-hidden'' w' = Some ''false''"
    and "target this = Some g \<Longrightarrow> getAttribute g ''aria-hidden'' w = Some ''false''
         \<Longrightarrow> getAttribute g ''aria-hidden'' w' = Some ''true''"
    and "target this = Some g
         \<Longrightarrow> getAttribute g ''aria-hidden'' w' \<in>
               {getAttribute g ''aria-hidden'' w, Some ''true'', Some ''false''}"
  using assms
  by (auto simp: toggleTargetAria_def Toggle_targetAriaRoles_def bindE_def unchanged_but_def
      split: option.splits if_splits)

lemma fold_setAttribute_frame:
  "unchanged_but {a} w
     (fold (\<lambda>other w'. if P other w' then setAttribute other a v w' else w') os w)"
proof (induction os arbitrary: w)
  case Nil
  show ?case by (simp add: unchanged_but_refl)
next
  case (Cons r os)
  have "unchanged_but {a} w (if P r w then setAttribute r a v w else w)"
    by (simp add: unchanged_but_refl unchanged_but_setAttribute)
  from unchanged_but_trans [OF this Cons.IH] show ?case by simp
qed

lemma elementAria_one_frame:
  assumes "(case v of Some s \<Rightarrow> if s \<noteq> [] then setAttribute e attr x w else w | None \<Rightarrow> w) = w1"
  shows "unchanged_but {attr} w w1"
  using assms by (auto simp: unchanged_but_refl unchanged_but_setAttribute split: option.splits if_splits)

lemma toggleElementAria_frame:
  assumes "toggleElementAria (this, w) = Inr w'"
  shows "unchanged_but {''aria-pressed'', ''aria-expanded''} w w'"
proof -
  obtain e where e: "element this = Some e"
    using assms by (auto simp: toggleElementAria_def Toggle_elAriaRoles_def bindE_def split: option.splits)
  define step where "step attr w0 =
     (let v = getAttribute e attr w0;
          flipped = (if v = Some ''true'' then ''false'' else ''true'');
          w1 = (case v of Some s \<Rightarrow> if s \<noteq> [] then setAttribute e attr flipped w0 else w0 | None \<Rightarrow> w0)
      in fold (\<lambda>other w'. if other \<noteq> e \<and> (case getAttribute other attr w' of Some s \<Rightarrow> s \<noteq> [] | None \<Rightarrow> False)
                  then setAttribute other attr flipped w' else w') (others this) w1)" for attr w0
  have fr: "unchanged_but {attr} w0 (step attr w0)" for attr w0
  proof -
    have "unchanged_but ({attr} \<union> {attr}) w0 (step attr w0)"
      unfolding step_def Let_def
      by (rule unchanged_but_trans [OF elementAria_one_frame [OF refl] fold_setAttribute_frame])
    then show ?thesis by simp
  qed
  have "w' = step ''aria-expanded'' (step ''aria-pressed'' w)"
    using assms e by (simp add: toggleElementAria_def Toggle_elAriaRoles_def bindE_def step_def Let_def)
  moreover have "unchanged_but ({''aria-pressed''} \<union> {''aria-expanded''}) w (step ''aria-expanded'' (step ''aria-pressed'' w))"
    by (rule unchanged_but_trans [OF fr fr])
  ultimately show ?thesis by (simp add: insert_commute)
qed
lemma forEach_toggle_effect:
  assumes "forEach (\<lambda>other w'. if other \<noteq> e then classList_toggle other k w' else Inr w') rs w = Inr w'"
  shows "tree w' = tree w
       \<and> (\<forall>r a. getAttribute r a w' = getAttribute r a w)
       \<and> (\<forall>r k'. classList_contains r k' w'
            = (classList_contains r k' w \<noteq> (k' = k \<and> r \<noteq> e \<and> odd (count_list rs r))))"
  using assms
proof (induction rs arbitrary: w)
  case Nil
  then show ?case by simp
next
  case (Cons x rs)
  from Cons.prems obtain w1 where
    one: "(if x \<noteq> e then classList_toggle x k w else Inr w) = Inr w1"
    and rest: "forEach (\<lambda>other w'. if other \<noteq> e then classList_toggle other k w' else Inr w') rs w1 = Inr w'"
    by (auto simp: bindE_Inr)
  have s1: "tree w1 = tree w" "\<And>r a. getAttribute r a w1 = getAttribute r a w"
    "\<And>r k'. classList_contains r k' w1 = (classList_contains r k' w \<noteq> (x \<noteq> e \<and> r = x \<and> k' = k))"
    using one classList_toggle_effect [of x k w w1] by (auto split: if_splits)
  from Cons.IH [OF rest] s1 show ?case
    by auto
qed

lemma toggleClasses_effect:
  assumes "toggleClasses tg (this, w) = Inr w'"
  shows "tree w' = tree w"
    and "getAttribute r a w' = getAttribute r a w"
    and "classList_contains r k w' = (classList_contains r k w \<noteq> flipped this tg r k)"
proof -
  obtain w3 where
    act: "(if truthy (activeClass (settings this)) then
              (case element this of
                 None \<Rightarrow> Inl TypeError
               | Some e \<Rightarrow>
                   bindE (classList_toggle e (toStr (activeClass (settings this))) w)
                     (\<lambda>w1. case target this of
                        None \<Rightarrow> Inl TypeError
                      | Some g \<Rightarrow>
                          bindE (classList_toggle g (toStr (activeClass (settings this))) w1)
                            (forEach
                               (\<lambda>other w'. if other \<noteq> e
                                  then classList_toggle other (toStr (activeClass (settings this))) w'
                                  else Inr w')
                               (others this))))
            else Inr w) = Inr w3"
    and inact: "(if truthy (inactiveClass (settings this))
                 then classList_toggle tg (toStr (inactiveClass (settings this))) w3
                 else Inr w3) = Inr w'"
    using assms by (auto simp: toggleClasses_def Let_def bindE_Inr)
  have a: "tree w3 = tree w \<and> (\<forall>r a. getAttribute r a w3 = getAttribute r a w)
     \<and> (\<forall>r k. classList_contains r k w3 = (classList_contains r k w \<noteq>
          (truthy (activeClass (settings this)) \<and> k = toStr (activeClass (settings this))
        \<and> odd ((if Some r = element this then 1 else 0) + (if Some r = target this then 1 else 0)
               + (if Some r \<noteq> element this then count_list (others this) r else 0)))))"
  proof (cases "truthy (activeClass (settings this))")
    case False
    with act show ?thesis by simp
  next
    case True
    with act obtain e g w1 w2 where e: "element this = Some e" and g: "target this = Some g"
      and t1: "classList_toggle e (toStr (activeClass (settings this))) w = Inr w1"
      and t2: "classList_toggle g (toStr (activeClass (settings this))) w1 = Inr w2"
      and t3: "forEach (\<lambda>other w'. if other \<noteq> e
                                  then classList_toggle other (toStr (activeClass (settings this))) w'
                                  else Inr w') (others this) w2 = Inr w3"
      by (auto simp: bindE_Inr split: option.splits)
    show ?thesis
      using classList_toggle_effect [OF t1] classList_toggle_effect [OF t2]
        forEach_toggle_effect [OF t3] True e g
      by auto
  qed
  have b: "tree w' = tree w3 \<and> (\<forall>r a. getAttribute r a w' = getAttribute r a w3)
     \<and> (\<forall>r k. classList_contains r k w' = (classList_contains r k w3 \<noteq>
          (truthy (inactiveClass (settings this)) \<and> k = toStr (inactiveClass (settings this)) \<and> r = tg)))"
    using inact classList_toggle_effect [of tg "toStr (inactiveClass (settings this))" w3 w']
    by (auto split: if_splits)
  show "tree w' = tree w" using a b by simp
  show "getAttribute r a w' = getAttribute r a w" using a b by simp
  show "classList_contains r k w' = (classList_contains r k w \<noteq> flipped this tg r k)"
    using a b unfolding flipped_def by blast
qed

lemma toggleBlocks_Inr:
  assumes "toggleBlocks tg tw3 = Inr tw8"
  shows "fst tw8 = fst tw3
       \<and> (\<exists>w4 w5 w6 w7.
             toggleClasses tg tw3 = Inr w4
           \<and> toggleTargetAria (fst tw3, w4) = Inr w5
           \<and> unchanged_but {''tabindex''} w5 w6
           \<and> unchanged_but {''tabindex''} w6 w7
           \<and> toggleElementAria (fst tw3, w7) = Inr (snd tw8))"
proof -
  from assms obtain w4 w5 tw6 tw7 w8 where s1: "toggleClasses tg tw3 = Inr w4"
    and s2: "toggleTargetAria (fst tw3, w4) = Inr w5"
    and s3: "(if truthy (focusable (settings (fst tw3)))
                     then Inr (toggleFocusable (this_focusable (fst tw3)) (fst tw3, w5))
                     else Inr (fst tw3, w5)) = (Inr tw6 :: error + toggle \<times> world)"
    and s4: "(if truthy (jump (settings (fst tw6))) then
                       (case element (fst tw6) of
                          None \<Rightarrow> Inl TypeError
                        | Some e \<Rightarrow>
                            if hasAttribute e ''href'' (snd tw6) then
                              (case target (fst tw6) of
                                 None \<Rightarrow> Inl TypeError
                               | Some g \<Rightarrow> Inr (jumpTo e g tw6))
                            else Inr tw6)
                     else Inr tw6) = Inr tw7"
    and s5: "toggleElementAria tw7 = Inr w8"
    and s6: "tw8 = (fst tw7, w8)"
    unfolding toggleBlocks_def bindE_Inr by blast
  have f6: "fst tw6 = fst tw3" "unchanged_but {''tabindex''} w5 (snd tw6)"
    using s3 toggleFocusable_frame [where rs = "this_focusable (fst tw3)" and tw = "(fst tw3, w5)"]
    by (auto simp: unchanged_but_refl split: if_splits)
  have f7: "fst tw7 = fst tw3" "unchanged_but {''tabindex''} (snd tw6) (snd tw7)"
    using s4 f6(1) jumpTo_frame [where tw = tw6]
    by (auto simp: unchanged_but_refl split: if_splits option.splits)
  have s5': "toggleElementAria (fst tw3, snd tw7) = Inr (snd tw8)"
    using s5 s6 f7(1) by (metis prod.collapse snd_conv)
  show ?thesis
    using s1 s2 f6(2) f7 s5' s6 by auto
qed

lemma bindE_InrD: "bindE m f = Inr y \<Longrightarrow> \<exists>x. m = Inr x \<and> f x = Inr y"
  by (simp add: bindE_Inr)

text \<open>A completed call of \<^verbatim>\<open>elementToggle\<close>, read off step by step.\<close>

lemma elementToggle_steps:
  assumes run: "elementToggle H el tg foc (this, w) = Inr tw9"
  shows "\<exists>os go tw2.
           getOthers el w = Inr os
         \<and> callHook H (valid (settings this))
               (this\<lparr>element := Some el, target := Some tg, others := os, this_focusable := foc\<rparr>, w)
             = Inr (go, tw2)
         \<and> (if \<not> go then tw9 = tw2
            else (\<exists>xb tw3 tw8 xa.
                   callHook H (before (settings (fst tw2))) tw2 = Inr (xb, tw3)
                 \<and> toggleBlocks tg tw3 = Inr tw8
                 \<and> callHook H (after (settings (fst tw8))) tw8 = Inr (xa, tw9)))"
proof -
  obtain os where os: "getOthers el w = Inr os"
    and r1: "bindE (callHook H (valid (settings this))
                 (this\<lparr>element := Some el, target := Some tg, others := os, this_focusable := foc\<rparr>, w))
              (\<lambda>(go, tw2).
            if \<not> go then Inr tw2
            else bindE (callHook H (before (settings (fst tw2))) tw2) (\<lambda>(_, tw3).
                 bindE (toggleBlocks tg tw3) (\<lambda>tw8.
                 bindE (callHook H (after (settings (fst tw8))) tw8) (\<lambda>(_, tw9).
                   Inr tw9)))) = Inr tw9"
    using bindE_InrD [OF run [unfolded elementToggle_def]] by (auto simp: Let_def)
  from bindE_InrD [OF r1] obtain x where v0: "callHook H (valid (settings this))
                 (this\<lparr>element := Some el, target := Some tg, others := os, this_focusable := foc\<rparr>, w) = Inr x"
    and r2: "(case x of (go, tw2) \<Rightarrow>
            if \<not> go then Inr tw2
            else bindE (callHook H (before (settings (fst tw2))) tw2) (\<lambda>(_, tw3).
                 bindE (toggleBlocks tg tw3) (\<lambda>tw8.
                 bindE (callHook H (after (settings (fst tw8))) tw8) (\<lambda>(_, tw9).
                   Inr tw9)))) = Inr tw9"
    by blast
  obtain go tw2 where x: "x = (go, tw2)"
    by (cases x)
  show ?thesis
  proof (cases go)
    case False
    with r2 x have "tw9 = tw2" by simp
    with os v0 x False show ?thesis
      by (intro exI [of _ os] exI [of _ go] exI [of _ tw2]) simp
  next
    case True
    with r2 x have r3: "bindE (callHook H (before (settings (fst tw2))) tw2) (\<lambda>(_, tw3).
                 bindE (toggleBlocks tg tw3) (\<lambda>tw8.
                 bindE (callHook H (after (settings (fst tw8))) tw8) (\<lambda>(_, tw9).
                   Inr tw9))) = Inr tw9"
      by simp
    from bindE_InrD [OF this] obtain y where b0: "callHook H (before (settings (fst tw2))) tw2 = Inr y"
      and r4: "(case y of (_, tw3) \<Rightarrow>
                 bindE (toggleBlocks tg tw3) (\<lambda>tw8.
                 bindE (callHook H (after (settings (fst tw8))) tw8) (\<lambda>(_, tw9).
                   Inr tw9))) = Inr tw9"
      by blast
    obtain xb tw3 where y: "y = (xb, tw3)"
      by (cases y)
    from r4 y have "bindE (toggleBlocks tg tw3) (\<lambda>tw8.
                 bindE (callHook H (after (settings (fst tw8))) tw8) (\<lambda>(_, tw9).
                   Inr tw9)) = Inr tw9"
      by simp
    from bindE_InrD [OF this] obtain tw8 where s: "toggleBlocks tg tw3 = Inr tw8"
      and r5: "bindE (callHook H (after (settings (fst tw8))) tw8) (\<lambda>(_, tw9). Inr tw9) = Inr tw9"
      by blast
    from bindE_InrD [OF r5] obtain z where a0: "callHook H (after (settings (fst tw8))) tw8 = Inr z"
      and r6: "(case z of (_, tw9) \<Rightarrow> Inr tw9) = (Inr tw9 :: error + toggle \<times> world)"
      by blast
    obtain xa where z: "z = (xa, tw9)"
      using r6 by (cases z) auto
    have inner: "\<exists>xb tw3 tw8 xa.
                   callHook H (before (settings (fst tw2))) tw2 = Inr (xb, tw3)
                 \<and> toggleBlocks tg tw3 = Inr tw8
                 \<and> callHook H (after (settings (fst tw8))) tw8 = Inr (xa, tw9)"
      using b0 y s a0 z by blast
    with os v0 x True show ?thesis
      by (intro exI [of _ os] exI [of _ go] exI [of _ tw2]) simp
  qed
qed

subsection \<open>Transitions with quiet callbacks\<close>

lemma quiet_valid:
  "quiet H s \<Longrightarrow> callHook H (valid s) tw = Inr (go, tw') \<Longrightarrow> go \<and> tw' = tw"
  unfolding quiet_def by (metis Inr_inject prod.inject)

lemma quiet_before:
  "quiet H s \<Longrightarrow> callHook H (before s) tw = Inr (x, tw') \<Longrightarrow> tw' = tw"
  unfolding quiet_def by (metis Inr_inject prod.inject)

lemma quiet_after:
  "quiet H s \<Longrightarrow> callHook H (after s) tw = Inr (x, tw') \<Longrightarrow> tw' = tw"
  unfolding quiet_def by (metis Inr_inject prod.inject)

lemma quiet_none:
  "valid s = None \<Longrightarrow> before s = None \<Longrightarrow> after s = None \<Longrightarrow> quiet H s"
  by (auto simp: quiet_def callHook_def)

text \<open>With quiet callbacks a completed transition is the sequence of its blocks.\<close>

lemma elementToggle_quiet:
  assumes q: "quiet H (settings this)"
    and run: "elementToggle H el tg foc (this, w) = Inr (this', w')"
  shows "\<exists>os w4 w5 w6 w7.
           getOthers el w = Inr os
         \<and> this' = this\<lparr>element := Some el, target := Some tg, others := os, this_focusable := foc\<rparr>
         \<and> toggleClasses tg (this', w) = Inr w4
         \<and> toggleTargetAria (this', w4) = Inr w5
         \<and> unchanged_but {''tabindex''} w5 w6
         \<and> unchanged_but {''tabindex''} w6 w7
         \<and> toggleElementAria (this', w7) = Inr w'"
proof -
  from elementToggle_steps [OF run] obtain os go tw2 where
    os: "getOthers el w = Inr os"
    and v: "callHook H (valid (settings this))
               (this\<lparr>element := Some el, target := Some tg, others := os, this_focusable := foc\<rparr>, w)
             = Inr (go, tw2)"
    and rest: "if \<not> go then (this', w') = tw2
            else (\<exists>xb tw3 tw8 xa.
                   callHook H (before (settings (fst tw2))) tw2 = Inr (xb, tw3)
                 \<and> toggleBlocks tg tw3 = Inr tw8
                 \<and> callHook H (after (settings (fst tw8))) tw8 = Inr (xa, this', w'))"
    by blast
  define t1 where "t1 = this\<lparr>element := Some el, target := Some tg, others := os, this_focusable := foc\<rparr>"
  have st: "settings t1 = settings this"
    by (simp add: t1_def)
  from quiet_valid [OF q v] have go: go and tw2: "tw2 = (t1, w)"
    by (simp_all add: t1_def)
  from rest go obtain xb tw3 tw8 xa where
    b: "callHook H (before (settings (fst tw2))) tw2 = Inr (xb, tw3)"
    and s: "toggleBlocks tg tw3 = Inr tw8"
    and a: "callHook H (after (settings (fst tw8))) tw8 = Inr (xa, this', w')"
    by auto
  have tw3: "tw3 = (t1, w)"
    using quiet_before [OF q] b tw2 st by auto
  from toggleBlocks_Inr [OF s] obtain w4 w5 w6 w7 where f8: "fst tw8 = t1"
    and bl: "toggleClasses tg (t1, w) = Inr w4" "toggleTargetAria (t1, w4) = Inr w5"
      "unchanged_but {''tabindex''} w5 w6" "unchanged_but {''tabindex''} w6 w7"
      "toggleElementAria (t1, w7) = Inr (snd tw8)"
    unfolding tw3 by auto
  have fin: "(this', w') = tw8"
    using quiet_after [OF q, of tw8] a f8 st by auto
  then have "this' = t1" "snd tw8 = w'"
    using f8 by auto
  with os bl show ?thesis
    unfolding t1_def by blast
qed

lemma elementToggle_quiet_effect:
  assumes q: "quiet H (settings this)"
    and run: "elementToggle H el tg foc (this, w) = Inr (this', w')"
  shows "\<exists>os. getOthers el w = Inr os
           \<and> this' = this\<lparr>element := Some el, target := Some tg, others := os, this_focusable := foc\<rparr>"
    and "tree w' = tree w"
    and "a \<notin> {''aria-hidden'', ''tabindex'', ''aria-pressed'', ''aria-expanded''}
         \<Longrightarrow> getAttribute r a w' = getAttribute r a w"
    and "classList_contains r k w' = (classList_contains r k w \<noteq> flipped this' tg r k)"
    and "getAttribute tg ''aria-hidden'' w = Some ''true''
         \<Longrightarrow> getAttribute tg ''aria-hidden'' w' = Some ''false''"
    and "getAttribute tg ''aria-hidden'' w = Some ''false''
         \<Longrightarrow> getAttribute tg ''aria-hidden'' w' = Some ''true''"
    and "getAttribute tg ''aria-hidden'' w' \<in>
           {getAttribute tg ''aria-hidden'' w, Some ''true'', Some ''false''}"
proof -
  from elementToggle_quiet [OF q run] obtain os w4 w5 w6 w7 where
    os: "getOthers el w = Inr os"
    and t: "this' = this\<lparr>element := Some el, target := Some tg, others := os, this_focusable := foc\<rparr>"
    and s1: "toggleClasses tg (this', w) = Inr w4"
    and s2: "toggleTargetAria (this', w4) = Inr w5"
    and s3: "unchanged_but {''tabindex''} w5 w6"
    and s4: "unchanged_but {''tabindex''} w6 w7"
    and s5: "toggleElementAria (this', w7) = Inr w'"
    by blast
  have tg: "target this' = Some tg"
    by (simp add: t)
  note c = toggleClasses_effect [OF s1]
  note h = toggleTargetAria_effect [OF s2]
  note e = toggleElementAria_frame [OF s5]
  have u57: "unchanged_but {''tabindex''} w5 w7"
    by (rule unchanged_but_mono [OF unchanged_but_trans [OF s3 s4]]) auto
  have u5: "unchanged_but {''tabindex'', ''aria-pressed'', ''aria-expanded''} w5 w'"
    by (rule unchanged_but_mono [OF unchanged_but_trans [OF u57 e]]) auto
  have u4: "unchanged_but {''aria-hidden'', ''tabindex'', ''aria-pressed'', ''aria-expanded''} w4 w'"
    by (rule unchanged_but_mono [OF unchanged_but_trans [OF h(1) u5]]) auto
  show "\<exists>os. getOthers el w = Inr os
           \<and> this' = this\<lparr>element := Some el, target := Some tg, others := os, this_focusable := foc\<rparr>"
    using os t by blast
  show "tree w' = tree w"
    using u4 c(1) by (simp add: unchanged_but_def)
  show "getAttribute r a w' = getAttribute r a w"
    if "a \<notin> {''aria-hidden'', ''tabindex'', ''aria-pressed'', ''aria-expanded''}"
    using that u4 c(2) [of r a] unfolding unchanged_but_def by metis
  show "classList_contains r k w' = (classList_contains r k w \<noteq> flipped this' tg r k)"
    using u4 c(3) [of r k] unfolding unchanged_but_def by metis
  show "getAttribute tg ''aria-hidden'' w' = Some ''false''"
    if "getAttribute tg ''aria-hidden'' w = Some ''true''"
  proof -
    have "getAttribute tg ''aria-hidden'' w5 = Some ''false''"
      using h(2) [OF tg] that c(2) by simp
    moreover have "getAttribute tg ''aria-hidden'' w' = getAttribute tg ''aria-hidden'' w5"
      using u5 by (simp add: unchanged_but_def)
    ultimately show ?thesis by simp
  qed
  show "getAttribute tg ''aria-hidden'' w' = Some ''true''"
    if "getAttribute tg ''aria-hidden'' w = Some ''false''"
  proof -
    have "getAttribute tg ''aria-hidden'' w5 = Some ''true''"
      using h(3) [OF tg] that c(2) by simp
    moreover have "getAttribute tg ''aria-hidden'' w' = getAttribute tg ''aria-hidden'' w5"
      using u5 by (simp add: unchanged_but_def)
    ultimately show ?thesis by simp
  qed
  show "getAttribute tg ''aria-hidden'' w' \<in>
           {getAttribute tg ''aria-hidden'' w, Some ''true'', Some ''false''}"
  proof -
    have "getAttribute tg ''aria-hidden'' w5 \<in>
            {getAttribute tg ''aria-hidden'' w, Some ''true'', Some ''false''}"
      using h(4) [OF tg] c(2) by simp
    moreover have "getAttribute tg ''aria-hidden'' w' = getAttribute tg ''aria-hidden'' w5"
      using u5 by (simp add: unchanged_but_def)
    ultimately show ?thesis by simp
  qed
qed

subsection \<open>Examples evaluated\<close>

lemma plainToggle_none:
  "valid (settings plainToggle) = None" "before (settings plainToggle) = None"
  "after (settings plainToggle) = None"
  by (simp_all add: plainToggle_def Toggle_constructor_def Let_def no_options_def)

lemma plainToggle_classes:
  "activeClass (settings plainToggle) = JStr ''active''"
  "inactiveClass (settings plainToggle) = JStr ''hidden''"
  by (simp_all add: plainToggle_def Toggle_constructor_def Let_def no_options_def
      Toggle_activeClass_def Toggle_inactiveClass_def)

lemma opened_Inr: "elementToggle noHooks 1 2 [4] (plainToggle, demo) = Inr (fst (projr opened), snd (projr opened))"
proof -
  have "\<not> isl opened" by code_simp
  then show ?thesis by (simp add: opened_def)
qed

lemma closedAgain_Inr:
  "elementToggle noHooks 1 2 [4] (fst (projr opened), snd (projr opened))
     = Inr (fst (projr closedAgain), snd (projr closedAgain))"
proof -
  have "\<not> isl closedAgain" by code_simp
  then show ?thesis by (simp add: closedAgain_def)
qed

lemma quiet_plain: "quiet noHooks (settings plainToggle)"
  by (rule quiet_none) (rule plainToggle_none)+

lemma keeps_plain: "keepsSettings noHooks (settings plainToggle)"
  by (simp add: keepsSettings_def noHooks_def)

lemma guarded_valid: "valid (settings guardedToggle) = Some 0"
  by (simp add: guardedToggle_def Toggle_constructor_def Let_def no_options_def)


subsection \<open>Transitions that pass the guard\<close>

text \<open>A completed call of \<^verbatim>\<open>elementToggle\<close> that the guard lets pass is the guard,
  the \<^verbatim>\<open>before\<close> hook, the blocks and the \<^verbatim>\<open>after\<close> hook, one after the other.\<close>

lemma elementToggle_passed:
  assumes run: "elementToggle H el tg foc (this, w) = Inr tw9"
    and pass: "guardPasses H el tg foc (this, w)"
  shows "\<exists>os tw2 xb tw3 w4 w5 w7 w8 xa.
           getOthers el w = Inr os
         \<and> callHook H (valid (settings this))
               (this\<lparr>element := Some el, target := Some tg, others := os, this_focusable := foc\<rparr>, w)
             = Inr (True, tw2)
         \<and> callHook H (before (settings (fst tw2))) tw2 = Inr (xb, tw3)
         \<and> toggleClasses tg (fst tw3, snd tw3) = Inr w4
         \<and> toggleTargetAria (fst tw3, w4) = Inr w5
         \<and> unchanged_but {''tabindex''} w5 w7
         \<and> toggleElementAria (fst tw3, w7) = Inr w8
         \<and> callHook H (after (settings (fst tw3))) (fst tw3, w8) = Inr (xa, tw9)"
proof -
  from elementToggle_steps [OF run] obtain os go tw2 where
    os: "getOthers el w = Inr os"
    and v: "callHook H (valid (settings this))
               (this\<lparr>element := Some el, target := Some tg, others := os, this_focusable := foc\<rparr>, w)
             = Inr (go, tw2)"
    and rest: "if \<not> go then tw9 = tw2
            else (\<exists>xb tw3 tw8 xa.
                   callHook H (before (settings (fst tw2))) tw2 = Inr (xb, tw3)
                 \<and> toggleBlocks tg tw3 = Inr tw8
                 \<and> callHook H (after (settings (fst tw8))) tw8 = Inr (xa, tw9))"
    by blast
  have go: go
    using pass os v by (simp add: guardPasses_def)
  with rest obtain xb tw3 tw8 xa where
    b: "callHook H (before (settings (fst tw2))) tw2 = Inr (xb, tw3)"
    and s: "toggleBlocks tg tw3 = Inr tw8"
    and a: "callHook H (after (settings (fst tw8))) tw8 = Inr (xa, tw9)"
    by auto
  from toggleBlocks_Inr [OF s] obtain w4 w5 w6 w7 where f8: "fst tw8 = fst tw3"
    and bl: "toggleClasses tg tw3 = Inr w4" "toggleTargetAria (fst tw3, w4) = Inr w5"
      "unchanged_but {''tabindex''} w5 w6" "unchanged_but {''tabindex''} w6 w7"
      "toggleElementAria (fst tw3, w7) = Inr (snd tw8)"
    by auto
  have u: "unchanged_but {''tabindex''} w5 w7"
    by (rule unchanged_but_mono [OF unchanged_but_trans [OF bl(3) bl(4)]]) auto
  have a': "callHook H (after (settings (fst tw3))) (fst tw3, snd tw8) = Inr (xa, tw9)"
    using a f8 by (metis prod.collapse)
  from os v go b bl(1) bl(2) u bl(5) a' show ?thesis
    by (intro exI [of _ os] exI [of _ tw2] exI [of _ xb] exI [of _ tw3] exI [of _ w4]
        exI [of _ w5] exI [of _ w7] exI [of _ "snd tw8"] exI [of _ xa]) simp
qed

lemma callHook_keepsHidden:
  assumes "keepsHidden H" and "callHook H h tw = Inr (b, tw')"
  shows "target (fst tw') = target (fst tw)"
    and "target (fst tw) = Some g
         \<Longrightarrow> getAttribute g ''aria-hidden'' (snd tw') = getAttribute g ''aria-hidden'' (snd tw)"
proof -
  have "target (fst tw') = target (fst tw)
        \<and> (\<forall>g. target (fst tw) = Some g
              \<longrightarrow> getAttribute g ''aria-hidden'' (snd tw') = getAttribute g ''aria-hidden'' (snd tw))"
  proof (cases h)
    case None
    with assms(2) show ?thesis by (simp add: callHook_def)
  next
    case (Some f)
    with assms(2) have "H f tw = Inr (b, tw')" by (simp add: callHook_def)
    with assms(1) show ?thesis unfolding keepsHidden_def by blast
  qed
  then show "target (fst tw') = target (fst tw)"
    and "target (fst tw) = Some g
         \<Longrightarrow> getAttribute g ''aria-hidden'' (snd tw') = getAttribute g ''aria-hidden'' (snd tw)"
    by simp_all
qed


lemma keepsHidden_accordion: "keepsHidden accordionHooks"
  unfolding keepsHidden_def accordionHooks_def accordion_after_def
  by (auto simp: bindE_Inr classList_toggle_effect split: option.splits)


lemma accordionToggle_settings:
  "valid (settings accordionToggle) = None" "before (settings accordionToggle) = None"
  "after (settings accordionToggle) = Some 0"
  "activeClass (settings accordionToggle) = JStr ''active''"
  by (simp_all add: accordionToggle_def accordion_def Toggle_constructor_def Let_def no_options_def
      Toggle_activeClass_def)

lemma expanded_Inr:
  "elementToggle accordionHooks 1 2 [4] (accordionToggle, nested) = Inr (fst (projr expanded), snd (projr expanded))"
proof -
  have "\<not> isl expanded" by code_simp
  then show ?thesis by (simp add: expanded_def)
qed

subsection \<open>Toggling twice\<close>

text \<open>
  C5 as the specification states it, that the membership flips and then flips back, fails
  in both halves. On the page \<open>selfPage\<close> the anchor is its own target: the
  transition toggles the active class on it once as the trigger and once as the target,
  and after the transition its membership is what it was. On the page \<open>injected\<close>
  the other triggers of the first transition are the elements out of the tab order,
  among them the target, and those of the second are none, the first having put the
  target back into the tab order: after the two transitions the target has the active
  class, which it did not have before.
\<close>

theorem toggle_twice_counterexample:
  "valid (settings plainToggle) = None \<and> before (settings plainToggle) = None
   \<and> after (settings plainToggle) = None
   \<and> activeClass (settings plainToggle) = JStr ''active''
   \<and> selfOpened = Inr (projr selfOpened)
   \<and> \<not> classList_contains 1 ''active'' selfPage
   \<and> \<not> classList_contains 1 ''active'' (snd (projr selfOpened))
   \<and> injectedOnce = Inr (projr injectedOnce)
   \<and> injectedTwice = Inr (projr injectedTwice)
   \<and> others (fst (projr injectedOnce)) = [2]
   \<and> others (fst (projr injectedTwice)) = []
   \<and> \<not> classList_contains 2 ''active'' injected
   \<and> classList_contains 2 ''active'' (snd (projr injectedTwice))"
proof -
  have "\<not> isl selfOpened" "\<not> isl injectedOnce" "\<not> isl injectedTwice"
    by code_simp+
  then have "selfOpened = Inr (projr selfOpened)" "injectedOnce = Inr (projr injectedOnce)"
    "injectedTwice = Inr (projr injectedTwice)"
    by simp_all
  moreover have "\<not> classList_contains 1 ''active'' selfPage"
    "\<not> classList_contains 1 ''active'' (snd (projr selfOpened))"
    "\<not> classList_contains 2 ''active'' injected"
    "classList_contains 2 ''active'' (snd (projr injectedTwice))"
    "others (fst (projr injectedOnce)) = [2]"
    "others (fst (projr injectedTwice)) = []"
    by code_simp+
  ultimately show ?thesis
    using plainToggle_none plainToggle_classes(1) by simp
qed

text \<open>
  C5 (amended). For an instance with an active class and without callbacks, two completed
  transitions in succession on the same trigger and target, with the same list in
  \<^verbatim>\<open>this.others\<close> after both (as it is whenever the trigger has a plain reference),
  leave the trigger's and the target's membership of the active class, and the target's
  membership of the inactive class, as they were. After the first of the two the
  trigger's membership of the active class is the opposite of the original when trigger
  and target are different elements, and so is the target's when moreover the target is
  not in \<^verbatim>\<open>this.others\<close> and the two class names differ.
\<close>

theorem toggle_twice_restores_classes:
  assumes none: "valid (settings this) = None" "before (settings this) = None"
      "after (settings this) = None"
    and act: "truthy (activeClass (settings this))"
    and first: "elementToggle H el tg foc (this, w) = Inr (this1, w1)"
    and second: "elementToggle H el tg foc' (this1, w1) = Inr (this2, w2)"
    and same: "plainReference el w \<or> others this2 = others this1"
  shows "classList_contains el (toStr (activeClass (settings this))) w2
           = classList_contains el (toStr (activeClass (settings this))) w
       \<and> classList_contains tg (toStr (activeClass (settings this))) w2
           = classList_contains tg (toStr (activeClass (settings this))) w
       \<and> classList_contains tg (toStr (inactiveClass (settings this))) w2
           = classList_contains tg (toStr (inactiveClass (settings this))) w
       \<and> (el \<noteq> tg
            \<longrightarrow> classList_contains el (toStr (activeClass (settings this))) w1
                = (\<not> classList_contains el (toStr (activeClass (settings this))) w))
       \<and> (el \<noteq> tg \<and> tg \<notin> set (others this1)
            \<and> toStr (activeClass (settings this)) \<noteq> toStr (inactiveClass (settings this))
            \<longrightarrow> classList_contains tg (toStr (activeClass (settings this))) w1
                = (\<not> classList_contains tg (toStr (activeClass (settings this))) w))"
proof -
  have q: "quiet H (settings this)"
    using none by (rule quiet_none)
  note e1 = elementToggle_quiet_effect [OF q first]
  from e1(1) obtain os where os: "getOthers el w = Inr os"
    and t1: "this1 = this\<lparr>element := Some el, target := Some tg, others := os, this_focusable := foc\<rparr>"
    by blast
  have st1: "settings this1 = settings this"
    by (simp add: t1)
  have q1: "quiet H (settings this1)"
    using q st1 by simp
  note e2 = elementToggle_quiet_effect [OF q1 second]
  from e2(1) obtain os' where os': "getOthers el w1 = Inr os'"
    and t2: "this2 = this1\<lparr>element := Some el, target := Some tg, others := os', this_focusable := foc'\<rparr>"
    by blast
  from same have "os' = os"
  proof
    assume "plainReference el w"
    then have "getOthers el w1 = getOthers el w"
      by (rule getOthers_cong) (simp_all add: e1(2) e1(3))
    with os os' show ?thesis by simp
  next
    assume "others this2 = others this1"
    then show ?thesis by (simp add: t1 t2)
  qed
  then have fl: "flipped this2 tg r k = flipped this1 tg r k" for r k
    by (simp add: flipped_def t1 t2)
  have restored: "classList_contains r k w2 = classList_contains r k w" for r k
    using e1(4) [of r k] e2(4) [of r k] fl [of r k] by auto
  have trig: "flipped this1 tg el (toStr (activeClass (settings this)))" if "el \<noteq> tg"
    using that act by (simp add: flipped_def t1)
  have targ: "flipped this1 tg tg (toStr (activeClass (settings this)))"
    if "el \<noteq> tg" "tg \<notin> set (others this1)"
      "toStr (activeClass (settings this)) \<noteq> toStr (inactiveClass (settings this))"
    using that act by (auto simp: flipped_def t1 count_list_0_iff)
  show ?thesis
    using restored e1(4) [of el "toStr (activeClass (settings this))"]
      e1(4) [of tg "toStr (activeClass (settings this))"] trig targ
    by auto
qed

theorem toggle_twice_restores_classes_witness:
  "valid (settings plainToggle) = None \<and> before (settings plainToggle) = None
   \<and> after (settings plainToggle) = None
   \<and> truthy (activeClass (settings plainToggle))
   \<and> opened = Inr (projr opened) \<and> closedAgain = Inr (projr closedAgain)
   \<and> plainReference 1 demo
   \<and> (1::nat) \<noteq> 2 \<and> 2 \<notin> set (others (fst (projr opened)))
   \<and> classList_contains 1 ''active'' (snd (projr closedAgain)) = classList_contains 1 ''active'' demo
   \<and> classList_contains 2 ''active'' (snd (projr closedAgain)) = classList_contains 2 ''active'' demo
   \<and> classList_contains 2 ''hidden'' (snd (projr closedAgain)) = classList_contains 2 ''hidden'' demo
   \<and> classList_contains 1 ''active'' (snd (projr opened))
   \<and> classList_contains 2 ''active'' (snd (projr opened))"
proof -
  have a: "truthy (activeClass (settings plainToggle))" "plainReference 1 demo"
    "2 \<notin> set (others (fst (projr opened)))"
    "\<not> classList_contains 1 ''active'' demo" "\<not> classList_contains 2 ''active'' demo"
    by code_simp+
  have b: "plainReference 1 demo \<or> others (fst (projr closedAgain)) = others (fst (projr opened))"
    using a(2) by simp
  show ?thesis
    using toggle_twice_restores_classes [OF plainToggle_none a(1) opened_Inr closedAgain_Inr b] a
      opened_Inr closedAgain_Inr
    by (simp add: plainToggle_none plainToggle_classes opened_def closedAgain_def)
qed

subsection \<open>The target's aria-hidden\<close>

text \<open>
  C6. After a completed transition that the guard lets pass, with callbacks that leave
  \<^verbatim>\<open>this.target\<close> and the target's \<^verbatim>\<open>aria-hidden\<close> as they are, a target whose
  \<^verbatim>\<open>aria-hidden\<close> was the string \<^verbatim>\<open>true\<close> has the string \<^verbatim>\<open>false\<close>, and one
  whose \<^verbatim>\<open>aria-hidden\<close> was \<^verbatim>\<open>false\<close> has \<^verbatim>\<open>true\<close>. Attribute values are
  strings in the document, and the attribute is either left as it was or holds one of
  these two strings.
\<close>

theorem transition_flips_aria_hidden:
  assumes run: "elementToggle H el tg foc (this, w) = Inr (this', w')"
    and pass: "guardPasses H el tg foc (this, w)"
    and keeps: "keepsHidden H"
  shows "(getAttribute tg ''aria-hidden'' w = Some ''true''
            \<longrightarrow> getAttribute tg ''aria-hidden'' w' = Some ''false'')
       \<and> (getAttribute tg ''aria-hidden'' w = Some ''false''
            \<longrightarrow> getAttribute tg ''aria-hidden'' w' = Some ''true'')
       \<and> getAttribute tg ''aria-hidden'' w' \<in>
             {getAttribute tg ''aria-hidden'' w, Some ''true'', Some ''false''}"
proof -
  from elementToggle_passed [OF run pass] obtain os tw2 xb tw3 w4 w5 w7 w8 xa where
    v: "callHook H (valid (settings this))
               (this\<lparr>element := Some el, target := Some tg, others := os, this_focusable := foc\<rparr>, w)
             = Inr (True, tw2)"
    and b: "callHook H (before (settings (fst tw2))) tw2 = Inr (xb, tw3)"
    and s1: "toggleClasses tg (fst tw3, snd tw3) = Inr w4"
    and s2: "toggleTargetAria (fst tw3, w4) = Inr w5"
    and s3: "unchanged_but {''tabindex''} w5 w7"
    and s4: "toggleElementAria (fst tw3, w7) = Inr w8"
    and a: "callHook H (after (settings (fst tw3))) (fst tw3, w8) = Inr (xa, this', w')"
    by blast
  let ?hid = "\<lambda>x. getAttribute tg ''aria-hidden'' x"
  have g2: "target (fst tw2) = Some tg"
    using callHook_keepsHidden(1) [OF keeps v] by simp
  have h2: "?hid (snd tw2) = ?hid w"
    using callHook_keepsHidden(2) [OF keeps v, of tg] by simp
  have g3: "target (fst tw3) = Some tg"
    using callHook_keepsHidden(1) [OF keeps b] g2 by simp
  have h3: "?hid (snd tw3) = ?hid w"
    using callHook_keepsHidden(2) [OF keeps b g2] h2 by simp
  have h4: "?hid w4 = ?hid w"
    using toggleClasses_effect(2) [OF s1, of tg "''aria-hidden''"] h3 by simp
  note t = toggleTargetAria_effect [OF s2]
  have h7: "?hid w7 = ?hid w5"
    using s3 by (simp add: unchanged_but_def)
  have h8: "?hid w8 = ?hid w7"
    using toggleElementAria_frame [OF s4] by (simp add: unchanged_but_def)
  have h9: "?hid w' = ?hid w8"
    using callHook_keepsHidden(2) [OF keeps a, of tg] g3 by simp
  have fin: "?hid w' = ?hid w5"
    using h7 h8 h9 by simp
  show ?thesis
    using t(2) [OF g3] t(3) [OF g3] t(4) [OF g3] h4 fin by auto
qed

theorem transition_flips_aria_hidden_witness:
  "expanded = Inr (projr expanded)
   \<and> guardPasses accordionHooks 1 2 [4] (accordionToggle, nested)
   \<and> keepsHidden accordionHooks
   \<and> after (settings accordionToggle) = Some 0
   \<and> getAttribute 2 ''aria-hidden'' nested = Some ''true''
   \<and> getAttribute 2 ''aria-hidden'' (snd (projr expanded)) = Some ''false''
   \<and> classList_contains 5 ''is-expanded'' (snd (projr expanded))"
proof -
  have a: "getAttribute 2 ''aria-hidden'' nested = Some ''true''"
    "guardPasses accordionHooks 1 2 [4] (accordionToggle, nested)"
    "classList_contains 5 ''is-expanded'' (snd (projr expanded))"
    by code_simp+
  have b: "getAttribute 2 ''aria-hidden'' (snd (projr expanded)) = Some ''false''"
    using transition_flips_aria_hidden [OF expanded_Inr a(2) keepsHidden_accordion] a(1) by simp
  show ?thesis
    using a b expanded_Inr keepsHidden_accordion accordionToggle_settings(3)
    by (simp add: expanded_def)
qed

subsection \<open>Triggers of the same target\<close>




subsection \<open>The settings\<close>

lemma callHook_keeps:
  assumes "keepsSettings H s" and "ho \<in> {valid s, before s, after s}"
    and "callHook H ho tw = Inr (b, tw')"
  shows "settings (fst tw') = settings (fst tw)"
proof (cases ho)
  case None
  with assms(3) show ?thesis by (simp add: callHook_def)
next
  case (Some h)
  with assms show ?thesis
    unfolding keepsSettings_def callHook_def by (metis option.simps(5))
qed

lemma elementToggle_settings:
  assumes k: "keepsSettings H (settings (fst tw))"
    and run: "elementToggle H el tg foc tw = Inr tw'"
  shows "settings (fst tw') = settings (fst tw)"
proof -
  obtain this w where tw: "tw = (this, w)"
    by (cases tw)
  from k tw have k: "keepsSettings H (settings this)" by simp
  from elementToggle_steps [OF run [unfolded tw]] obtain os go tw2 where
    v: "callHook H (valid (settings this))
               (this\<lparr>element := Some el, target := Some tg, others := os, this_focusable := foc\<rparr>, w)
             = Inr (go, tw2)"
    and rest: "if \<not> go then tw' = tw2
            else (\<exists>xb tw3 tw8 xa.
                   callHook H (before (settings (fst tw2))) tw2 = Inr (xb, tw3)
                 \<and> toggleBlocks tg tw3 = Inr tw8
                 \<and> callHook H (after (settings (fst tw8))) tw8 = Inr (xa, tw'))"
    by blast
  have s2: "settings (fst tw2) = settings this"
    using callHook_keeps [OF k _ v] by simp
  show ?thesis
  proof (cases go)
    case False
    with rest s2 tw show ?thesis by simp
  next
    case True
    with rest obtain xb tw3 tw8 xa where
      b: "callHook H (before (settings (fst tw2))) tw2 = Inr (xb, tw3)"
      and s: "toggleBlocks tg tw3 = Inr tw8"
      and a: "callHook H (after (settings (fst tw8))) tw8 = Inr (xa, tw')"
      by auto
    have s3: "settings (fst tw3) = settings this"
      using callHook_keeps [OF k _ b [unfolded s2]] s2 by simp
    have s8: "settings (fst tw8) = settings this"
      using toggleBlocks_Inr [OF s] s3 by simp
    have "settings (fst tw') = settings this"
      using callHook_keeps [OF k _ a [unfolded s8]] s8 by simp
    with tw show ?thesis by simp
  qed
qed

lemma toggle_settings:
  assumes k: "keepsSettings H (settings (fst tw))"
    and run: "toggle H ev tw = Inr tw'"
  shows "settings (fst tw') = settings (fst tw)"
proof -
  from bindE_InrD [OF run [unfolded toggle_def Let_def]] obtain tgt where
    r1: "bindE (case tgt of
                    Some g \<Rightarrow> elementQuerySelectorAll g (join '', '' Toggle_elFocusable)
                                (preventDefault ev (snd tw))
                  | None \<Rightarrow> Inr []) (\<lambda>foc.
             case tgt of
               None \<Rightarrow> Inr (fst tw, preventDefault ev (snd tw))
             | Some g \<Rightarrow>
                 bindE (elementToggle H (ev_target ev) g foc (fst tw, preventDefault ev (snd tw))) (\<lambda>tw1.
                   case dataset (ev_target ev)
                          (toStr (namespace (settings (fst tw1))) @ ''Undo'') (snd tw1) of
                     None \<Rightarrow> Inr tw1
                   | Some u \<Rightarrow>
                       if u = [] then Inr tw1
                       else bindE (querySelector u (snd tw1)) (\<lambda>undo.
                              case undo of
                                None \<Rightarrow> Inl TypeError
                              | Some r \<Rightarrow>
                                  Inr (fst tw1, addEventListener (Node r) ''click'' (Undo (ev_target ev) g) (snd tw1)))))
          = Inr tw'"
    by blast
  from bindE_InrD [OF r1] obtain foc where
    r2: "(case tgt of
               None \<Rightarrow> Inr (fst tw, preventDefault ev (snd tw))
             | Some g \<Rightarrow>
                 bindE (elementToggle H (ev_target ev) g foc (fst tw, preventDefault ev (snd tw))) (\<lambda>tw1.
                   case dataset (ev_target ev)
                          (toStr (namespace (settings (fst tw1))) @ ''Undo'') (snd tw1) of
                     None \<Rightarrow> Inr tw1
                   | Some u \<Rightarrow>
                       if u = [] then Inr tw1
                       else bindE (querySelector u (snd tw1)) (\<lambda>undo.
                              case undo of
                                None \<Rightarrow> Inl TypeError
                              | Some r \<Rightarrow>
                                  Inr (fst tw1, addEventListener (Node r) ''click'' (Undo (ev_target ev) g) (snd tw1)))))
          = Inr tw'"
    by blast
  show ?thesis
  proof (cases tgt)
    case None
    with r2 show ?thesis by auto
  next
    case (Some g)
    with r2 have "bindE (elementToggle H (ev_target ev) g foc (fst tw, preventDefault ev (snd tw))) (\<lambda>tw1.
                   case dataset (ev_target ev)
                          (toStr (namespace (settings (fst tw1))) @ ''Undo'') (snd tw1) of
                     None \<Rightarrow> Inr tw1
                   | Some u \<Rightarrow>
                       if u = [] then Inr tw1
                       else bindE (querySelector u (snd tw1)) (\<lambda>undo.
                              case undo of
                                None \<Rightarrow> Inl TypeError
                              | Some r \<Rightarrow>
                                  Inr (fst tw1, addEventListener (Node r) ''click'' (Undo (ev_target ev) g) (snd tw1))))
          = Inr tw'"
      by simp
    from bindE_InrD [OF this] obtain tw1 where
      et: "elementToggle H (ev_target ev) g foc (fst tw, preventDefault ev (snd tw)) = Inr tw1"
      and r3: "(case dataset (ev_target ev)
                          (toStr (namespace (settings (fst tw1))) @ ''Undo'') (snd tw1) of
                     None \<Rightarrow> Inr tw1
                   | Some u \<Rightarrow>
                       if u = [] then Inr tw1
                       else bindE (querySelector u (snd tw1)) (\<lambda>undo.
                              case undo of
                                None \<Rightarrow> Inl TypeError
                              | Some r \<Rightarrow>
                                  Inr (fst tw1, addEventListener (Node r) ''click'' (Undo (ev_target ev) g) (snd tw1))))
          = Inr tw'"
      by blast
    have "settings (fst tw1) = settings (fst tw)"
      using elementToggle_settings [OF _ et] k by simp
    moreover have "fst tw' = fst tw1"
      using r3 by (auto simp: bindE_Inr split: option.splits if_splits)
    ultimately show ?thesis by simp
  qed
qed

text \<open>
  C9. The methods of the class never assign to the settings: when the configured
  callbacks keep the settings (in particular when none is configured), the instance has
  the same settings after a completed \<^verbatim>\<open>click\<close>, \<^verbatim>\<open>change\<close>, \<^verbatim>\<open>toggle\<close> or
  \<^verbatim>\<open>elementToggle\<close>, and after \<^verbatim>\<open>toggleFocusable\<close> and \<^verbatim>\<open>jumpTo\<close>.
\<close>

theorem settings_never_modified:
  assumes "keepsSettings H (settings (fst tw))"
  shows "(click H ev tw = Inr tw' \<longrightarrow> settings (fst tw') = settings (fst tw))
       \<and> (change H ev tw = Inr tw' \<longrightarrow> settings (fst tw') = settings (fst tw))
       \<and> (toggle H ev tw = Inr tw' \<longrightarrow> settings (fst tw') = settings (fst tw))
       \<and> (elementToggle H el tg foc tw = Inr tw' \<longrightarrow> settings (fst tw') = settings (fst tw))
       \<and> settings (fst (toggleFocusable els tw)) = settings (fst tw)
       \<and> settings (fst (jumpTo el tg tw)) = settings (fst tw)"
  using toggle_settings [OF assms] elementToggle_settings [OF assms]
  by (auto simp: click_def change_def Let_def toggleFocusable_def jumpTo_def split: if_splits)

theorem settings_never_modified_witness:
  "before (settings hookedToggle) = Some 0
   \<and> keepsSettings rewires (settings hookedToggle)
   \<and> rewired = Inr (projr rewired)
   \<and> others (fst (projr rewired)) = []
   \<and> settings (fst (projr rewired)) = settings hookedToggle
   \<and> keepsSettings noHooks (settings plainToggle)
   \<and> clicked = Inr (projr clicked)
   \<and> settings (fst (projr clicked)) = settings plainToggle"
proof -
  have b: "before (settings hookedToggle) = Some 0"
    by (simp add: hookedToggle_def Toggle_constructor_def Let_def no_options_def)
  have kh: "keepsSettings rewires (settings hookedToggle)"
    by (auto simp: keepsSettings_def rewires_def)
  have "\<not> isl rewired" by code_simp
  then have r: "elementToggle rewires 1 2 [4] (hookedToggle, demo) = Inr (projr rewired)"
    by (simp add: rewired_def)
  have o: "others (fst (projr rewired)) = []"
    by code_simp
  have "\<not> isl clicked" by code_simp
  then have c: "click noHooks \<lparr>ev_target = 1, ev_type = ''click'', ev_cancelable = True\<rparr> (plainToggle, demo) = Inr (projr clicked)"
    by (simp add: clicked_def)
  have kh': "keepsSettings rewires (settings (fst (hookedToggle, demo)))"
    using kh by simp
  have kp': "keepsSettings noHooks (settings (fst (plainToggle, demo)))"
    using keeps_plain by simp
  show ?thesis
    using settings_never_modified [OF kp', of "\<lparr>ev_target = 1, ev_type = ''click'', ev_cancelable = True\<rparr>" "projr clicked"]
      settings_never_modified [OF kh', of _ "projr rewired" 1 2 "[4]"] b kh r o c keeps_plain
    by (simp add: clicked_def rewired_def)
qed

subsection \<open>The guard\<close>

text \<open>
  C4 (amended). When the configured guard returns false, \<^verbatim>\<open>elementToggle\<close> returns at
  once with the instance and the document as the guard left them: no class, ARIA attribute
  or tabindex is changed and no hook runs. The guard is called after
  \<^verbatim>\<open>this.element\<close>, \<^verbatim>\<open>this.target\<close>, \<^verbatim>\<open>this.others\<close> and
  \<^verbatim>\<open>this.focusable\<close> have been assigned, so these four fields hold the values of this
  call.
\<close>

theorem guard_false_aborts:
  assumes "getOthers el w = Inr os"
    and "valid (settings this) = Some g"
    and "H g (this\<lparr>element := Some el, target := Some tg, others := os, this_focusable := foc\<rparr>, w)
         = Inr (False, tw')"
  shows "elementToggle H el tg foc (this, w) = Inr tw'"
  using assms by (simp add: elementToggle_def bindE_def callHook_def)
theorem guard_false_aborts_witness:
  "getOthers 1 demo = Inr [1, 3]
   \<and> valid (settings guardedToggle) = Some 0
   \<and> refuse 0 (guardedToggle\<lparr>element := Some 1, target := Some 2, others := [1, 3],
        this_focusable := [4]\<rparr>, demo)
     = Inr (False, guardedToggle\<lparr>element := Some 1, target := Some 2, others := [1, 3],
        this_focusable := [4]\<rparr>, demo)
   \<and> elementToggle refuse 1 2 [4] (guardedToggle, demo)
     = Inr (guardedToggle\<lparr>element := Some 1, target := Some 2, others := [1, 3],
        this_focusable := [4]\<rparr>, demo)"
proof -
  have a: "getOthers 1 demo = Inr [1, 3]"
    by code_simp
  have b: "refuse 0 (guardedToggle\<lparr>element := Some 1, target := Some 2, others := [1, 3],
        this_focusable := [4]\<rparr>, demo)
     = Inr (False, guardedToggle\<lparr>element := Some 1, target := Some 2, others := [1, 3],
        this_focusable := [4]\<rparr>, demo)"
    by (simp add: refuse_def)
  show ?thesis
    using guard_false_aborts [where H = refuse and tg = 2 and foc = "[4]", OF a guarded_valid b]
      a guarded_valid b by simp
qed


text \<open>
  C4 as the specification states it, with the stored fields as before the call, fails for
  a guard that refuses and changes nothing: the four fields of the instance, unset before
  the call, hold the trigger, the target, the other triggers and the focusable elements
  after it.
\<close>

theorem guard_false_state_counterexample:
  "valid (settings guardedToggle) = Some 0
   \<and> refused = Inr (projr refused)
   \<and> element guardedToggle = None \<and> target guardedToggle = None
   \<and> others guardedToggle = [] \<and> this_focusable guardedToggle = []
   \<and> element (fst (projr refused)) = Some 1 \<and> target (fst (projr refused)) = Some 2
   \<and> others (fst (projr refused)) = [1, 3] \<and> this_focusable (fst (projr refused)) = [4]"
proof -
  have "\<not> isl refused" by code_simp
  then have "refused = Inr (projr refused)" by simp
  moreover have "element guardedToggle = None" "target guardedToggle = None"
   "others guardedToggle = []" "this_focusable guardedToggle = []"
   "element (fst (projr refused)) = Some 1" "target (fst (projr refused)) = Some 2"
   "others (fst (projr refused)) = [1, 3]" "this_focusable (fst (projr refused)) = [4]"
    by code_simp+
  ultimately show ?thesis using guarded_valid by simp
qed

end

